theory Spec2Isabelle
  imports Main "HOL-Library.Sublist"
begin

section \<open>PyScript core: the lifecycle controller of \<^verbatim>\<open>core/src/core.js\<close>\<close>

text \<open>
  The file \<^verbatim>\<open>core.js\<close> is effectful JavaScript: it mutates DOM elements, a per-flavor
  closure (\<^verbatim>\<open>alreadyRegistered\<close>, \<^verbatim>\<open>id\<close>, \<^verbatim>\<open>currentElement\<close>, the \<^verbatim>\<open>errors\<close> map) and
  calls into collaborators that live elsewhere (polyscript, the interpreter, plugins, the
  network). The embedding threads one explicit state through every function and appends
  each effect of the core to a trace, in the order the code performs it. What a
  collaborator answers (a fetch, a lookup, a plugin callback, a run) is a parameter of
  the model, so that every theorem holds for every behaviour of the collaborators.

  An \<^verbatim>\<open>async\<close> function is followed from one \<^verbatim>\<open>await\<close> to the next; the outcome of the
  awaited promise is what the environment answers. The one place where a function stays
  suspended across other callbacks of the page, \<^verbatim>\<open>await this._wrap.promise\<close> in
  \<^verbatim>\<open>connectedCallback\<close>, is modelled by a queue of suspended continuations.
\<close>

subsection \<open>Data\<close>

type_synonym elem = nat
type_synonym wrap = nat

text \<open>What a call that may throw (or an awaited promise that may reject) comes to.\<close>

datatype completion = Normal | Throw string

text \<open>What the promise returned by \<^verbatim>\<open>runAsync\<close> comes to; it may never settle.\<close>

datatype settlement = Fulfilled | Rejected string | Pending

text \<open>
  What \<^verbatim>\<open>queryTarget(element, target)\<close> of polyscript comes to: an element, \<^verbatim>\<open>null\<close>, or
  an exception (a target that is no valid selector).
\<close>

datatype lookup = Found elem | NotFound | LookupThrows string

datatype event =
    RegisterJsModule wrap string "string list"
  | Invoke string
  | Awaited string
  | Stderr wrap string
  | Fetch string
  | Warn string
  | Dispatch elem string string
  | Run elem wrap string
  | RunAsync elem wrap string
  | Debug
  | AssignSync nat

text \<open>
  A DOM element as the core reads and writes it. \<open>wrap_promise\<close> is the field \<^verbatim>\<open>_wrap\<close>
  (\<^verbatim>\<open>withResolvers()\<close>): \<open>None\<close> while the promise is pending, \<open>Some w\<close> once
  \<^verbatim>\<open>_wrap.resolve(w)\<close> ran. \<open>target\<close> is the property defined by
  \<^verbatim>\<open>defineProperty(element, "target", { value: show })\<close>: \<open>None\<close> until it is defined.
\<close>

record node =
  tagName :: string
  attrs :: "string \<rightharpoonup> string"
  textContent :: string
  innerHTML :: string
  childElementCount :: nat
  target :: "elem option"
  wrap_promise :: "wrap option"
  srcCode :: string
  executed :: bool
  display :: string

text \<open>
  The state of one flavor and of the document it works on. \<open>id_n\<close> is the counter
  \<^verbatim>\<open>let id = 0\<close>; \<open>currentElement\<close> is the variable of that name; \<open>errors\<close> is the map
  \<^verbatim>\<open>errors\<close> with the \<^verbatim>\<open>message\<close> of each recorded error; \<open>head\<close> and \<open>body\<close> list the
  elements of \<^verbatim>\<open>document.head\<close> and \<^verbatim>\<open>document.body\<close> in document order; \<open>next_elem\<close>
  is the next unused element identity; \<open>waiting\<close> holds the \<^verbatim>\<open>connectedCallback\<close> calls
  suspended at \<^verbatim>\<open>await this._wrap.promise\<close>, each with the \<^verbatim>\<open>isAsync\<close> it computed
  before. The counter is a JavaScript number; it is exact below \<open>2 ^ 53\<close>, far beyond the
  number of elements of a page, and is modelled as a natural number.
\<close>

record state =
  nodes :: "elem \<Rightarrow> node"
  head :: "elem list"
  body :: "elem list"
  next_elem :: elem
  id_n :: nat
  alreadyRegistered :: bool
  currentElement :: "elem option"
  errors :: "elem \<rightharpoonup> string"
  waiting :: "(elem \<times> bool) list"
  trace :: "event list"

text \<open>
  A plugin callback: its identity, whether the call (for an awaited call: the promise it
  returns) completes or throws, and what it does to the page when it is called with its
  two arguments. \<open>cb_edit c a b s\<close> is the page as the callback leaves it; of that, the
  model takes over what a callback can reach through the DOM (see \<open>plugin_edit\<close>).
\<close>

datatype callback =
  Callback (cb_name: string) (cb_result: completion) (cb_edit: "nat \<Rightarrow> nat \<Rightarrow> state \<Rightarrow> state")

text \<open>
  The collaborators of one flavor. \<open>flavor\<close> is \<^verbatim>\<open>TYPE\<close>; \<open>CONFLICTING_CODE\<close> is
  \<^verbatim>\<open>ErrorCode.CONFLICTING_CODE\<close> (exceptions.js) and \<open>INVALID_CONTENT\<close> the constant of
  polyscript: both are constants the file imports, taken as parameters. \<open>queryTarget\<close>
  reads the document as it is when it is called. \<open>fetch\<close> stands for \<^verbatim>\<open>fetch(url).then(getText)\<close>:
  \<open>Inl\<close> is the error the \<^verbatim>\<open>catch\<close> receives. \<open>main\<close> and \<open>worker\<close> are the hook queries
  \<^verbatim>\<open>main(name)\<close> and \<^verbatim>\<open>worker(name)\<close> of hooks.js. \<open>outerHTML n clone\<close> is
  \<^verbatim>\<open>element.cloneNode(clone).outerHTML\<close>.
\<close>

record env =
  flavor :: string
  CONFLICTING_CODE :: string
  INVALID_CONTENT :: string
  isSync :: "node \<Rightarrow> bool"
  queryTarget :: "state \<Rightarrow> elem \<Rightarrow> string \<Rightarrow> lookup"
  dedent :: "string \<Rightarrow> string"
  unescape :: "string \<Rightarrow> string"
  fetch :: "string \<Rightarrow> string + string"
  main :: "string \<Rightarrow> callback list"
  worker :: "string \<Rightarrow> callback list"
  run :: "wrap \<Rightarrow> string \<Rightarrow> completion"
  runAsync :: "wrap \<Rightarrow> string \<Rightarrow> settlement"
  outerHTML :: "node \<Rightarrow> bool \<Rightarrow> string"

subsection \<open>Helpers of the flavor closure\<close>

definition emit :: "event \<Rightarrow> state \<Rightarrow> state" where
  "emit e s = s\<lparr>trace := trace s @ [e]\<rparr>"

definition emits :: "event list \<Rightarrow> state \<Rightarrow> state" where
  "emits es s = s\<lparr>trace := trace s @ es\<rparr>"

text \<open>\<^verbatim>\<open>const isScript = ({ tagName }) => tagName === "SCRIPT"\<close>\<close>

definition isScript :: "node \<Rightarrow> bool" where
  "isScript n = (tagName n = ''SCRIPT'')"

text \<open>The decimal rendering of the counter inside the template literal.\<close>

definition digit :: "nat \<Rightarrow> char" where
  "digit d = ''0123456789'' ! d"

fun decimal :: "nat \<Rightarrow> string" where
  "decimal n = (if n < 10 then [digit n] else decimal (n div 10) @ [digit (n mod 10)])"

declare decimal.simps [simp del]

text \<open>\<^verbatim>\<open>const getID = (prefix = TYPE) => `${prefix}-${id++}`\<close>, always called without argument.\<close>

definition getID :: "env \<Rightarrow> state \<Rightarrow> string \<times> state" where
  "getID env s = (flavor env @ ''-'' @ decimal (id_n s), s\<lparr>id_n := Suc (id_n s)\<rparr>)"

text \<open>
  The tail of \<^verbatim>\<open>fetchSource\<close>: the inline content, as text or (deprecated, with a warning)
  as unescaped markup.
\<close>

definition inline_source :: "env \<Rightarrow> node \<Rightarrow> bool \<Rightarrow> event list \<times> string" where
  "inline_source env tag asText =
     (if asText then ([], dedent env (textContent tag))
      else (let code = dedent env (unescape env (innerHTML tag)) in ([Warn code], code)))"

text \<open>
  \<^verbatim>\<open>fetchSource(tag, io, asText)\<close>: the effects it performs, in order, and the source it
  returns. \<open>io\<close> is the wrap whose \<^verbatim>\<open>io.stderr\<close> receives a fetch error.
\<close>

definition fetchSource :: "env \<Rightarrow> node \<Rightarrow> wrap \<Rightarrow> bool \<Rightarrow> event list \<times> string" where
  "fetchSource env tag io asText =
     (case attrs tag ''src'' of
        Some url \<Rightarrow>
          (case fetch env url of
             Inr text \<Rightarrow> ([Fetch url], text)
           | Inl error \<Rightarrow>
               (let (evs, code) = inline_source env tag asText
                in ([Fetch url, Stderr io error] @ evs, code)))
      | None \<Rightarrow> inline_source env tag asText)"

text \<open>
  \<^verbatim>\<open>registerModule\<close>: guarded by \<^verbatim>\<open>alreadyRegistered\<close>, it registers the module
  \<^verbatim>\<open>_pyscript\<close> with its five members on the interpreter of the wrap.
\<close>

definition registerModule :: "wrap \<Rightarrow> state \<Rightarrow> state" where
  "registerModule w s =
     (if alreadyRegistered s then s
      else emit (RegisterJsModule w ''_pyscript''
                   [''PyWorker'', ''fs'', ''interpreter'', ''js_import'', ''target''])
             (s\<lparr>alreadyRegistered := True\<rparr>))"

subsection \<open>Plugin callbacks\<close>

text \<open>
  What a call of the callback \<open>c\<close> with the arguments \<open>a\<close> and \<open>b\<close> does to the page. A
  callback is code of a plugin: it can edit the attributes and the content of every
  element and move elements in the head and the body, before the core reads them. The
  variables of the flavor closure (\<^verbatim>\<open>alreadyRegistered\<close>, \<^verbatim>\<open>id\<close>, \<^verbatim>\<open>currentElement\<close>,
  \<^verbatim>\<open>errors\<close>) are out of its reach; the fields that the class of the custom element and
  the core add to an element (\<^verbatim>\<open>executed\<close>, \<^verbatim>\<open>_wrap\<close>, \<^verbatim>\<open>srcCode\<close>, \<^verbatim>\<open>target\<close>), the tag
  names and the trace of the core's own effects are left as they are.
\<close>

definition plugin_edit :: "callback \<Rightarrow> nat \<Rightarrow> nat \<Rightarrow> state \<Rightarrow> state" where
  "plugin_edit c a b s =
     (let s' = cb_edit c a b s
      in s\<lparr>nodes := (\<lambda>x. (nodes s x)\<lparr>attrs := attrs (nodes s' x),
                                      textContent := textContent (nodes s' x),
                                      innerHTML := innerHTML (nodes s' x),
                                      childElementCount := childElementCount (nodes s' x)\<rparr>),
           head := head s', body := body s'\<rparr>)"

text \<open>
  \<^verbatim>\<open>for (const callback of main("onReady")) await callback(wrap, element)\<close>: each callback
  is called and its promise awaited before the loop goes on; a rejection leaves the loop.
\<close>

fun await_callbacks :: "callback list \<Rightarrow> nat \<Rightarrow> nat \<Rightarrow> state \<Rightarrow> completion \<times> state" where
  "await_callbacks [] a b s = (Normal, s)"
| "await_callbacks (c # cs) a b s =
     (let s1 = plugin_edit c a b (emit (Invoke (cb_name c)) s)
      in case cb_result c of
           Normal \<Rightarrow> await_callbacks cs a b (emit (Awaited (cb_name c)) s1)
         | Throw e \<Rightarrow> (Throw e, s1))"

text \<open>
  \<^verbatim>\<open>for (const callback of main("onWorker")) callback(_, xworker)\<close>: each callback is
  called, nothing is awaited; an exception leaves the loop.
\<close>

fun call_callbacks :: "callback list \<Rightarrow> nat \<Rightarrow> nat \<Rightarrow> state \<Rightarrow> completion \<times> state" where
  "call_callbacks [] a b s = (Normal, s)"
| "call_callbacks (c # cs) a b s =
     (let s1 = plugin_edit c a b (emit (Invoke (cb_name c)) s)
      in case cb_result c of
           Normal \<Rightarrow> call_callbacks cs a b s1
         | Throw e \<Rightarrow> (Throw e, s1))"

text \<open>\<^verbatim>\<open>onWorker(_, xworker)\<close> of the main hooks; \<open>u\<close> is its first argument.\<close>

definition onWorker :: "env \<Rightarrow> nat \<Rightarrow> nat \<Rightarrow> state \<Rightarrow> completion \<times> state" where
  "onWorker env u xworker s =
     call_callbacks (main env ''onWorker'') u xworker (emit (AssignSync xworker) s)"

text \<open>\<^verbatim>\<open>dispatch(element, TYPE, "done")\<close>, the effect of \<^verbatim>\<open>dispatchDone\<close> once it dispatches.\<close>

definition dispatchDone :: "env \<Rightarrow> elem \<Rightarrow> state \<Rightarrow> state" where
  "dispatchDone env element s = emit (Dispatch element (flavor env) ''done'') s"

subsection \<open>The hooks around a run\<close>

text \<open>Whether the name of a hook ends in \<^verbatim>\<open>Async\<close>.\<close>

definition is_async_hook :: "string \<Rightarrow> bool" where
  "is_async_hook name = (5 \<le> length name \<and> drop (length name - 5) name = ''Async'')"

text \<open>
  Modelled from the spec: \<^verbatim>\<open>bootstrapNodeAndPlugins(main, wrap, element, name)\<close> of
  plugins-helper.js, which is not part of the sources. Sections 4.2 and 4.4: before and
  after each execution the controller invokes the registered hook chain; for a
  synchronous event each callback is called in order and an exception is propagated at
  once; for an asynchronous event the result, when awaited, has awaited each callback in
  order, and a rejection aborts the remaining callbacks.
\<close>

definition bootstrapNodeAndPlugins ::
    "(string \<Rightarrow> callback list) \<Rightarrow> wrap \<Rightarrow> elem \<Rightarrow> string \<Rightarrow> state \<Rightarrow> completion \<times> state" where
  "bootstrapNodeAndPlugins hooks w element name s =
     (if is_async_hook name then await_callbacks (hooks name) w element s
      else call_callbacks (hooks name) w element s)"

text \<open>Lines 255 to 288: the four hooks of the main thread around a run.\<close>

definition onBeforeRun :: "env \<Rightarrow> wrap \<Rightarrow> elem \<Rightarrow> state \<Rightarrow> completion \<times> state" where
  "onBeforeRun env w element s =
     bootstrapNodeAndPlugins (main env) w element ''onBeforeRun''
       (s\<lparr>currentElement := Some element\<rparr>)"

definition onBeforeRunAsync :: "env \<Rightarrow> wrap \<Rightarrow> elem \<Rightarrow> state \<Rightarrow> completion \<times> state" where
  "onBeforeRunAsync env w element s =
     bootstrapNodeAndPlugins (main env) w element ''onBeforeRunAsync''
       (s\<lparr>currentElement := Some element\<rparr>)"

definition onAfterRun :: "env \<Rightarrow> wrap \<Rightarrow> elem \<Rightarrow> state \<Rightarrow> completion \<times> state" where
  "onAfterRun env w element s = bootstrapNodeAndPlugins (main env) w element ''onAfterRun'' s"

definition onAfterRunAsync :: "env \<Rightarrow> wrap \<Rightarrow> elem \<Rightarrow> state \<Rightarrow> completion \<times> state" where
  "onAfterRunAsync env w element s =
     bootstrapNodeAndPlugins (main env) w element ''onAfterRunAsync'' s"


subsection \<open>Target resolution of a script\<close>

definition new_node :: "string \<Rightarrow> node" where
  "new_node tag = \<lparr>tagName = tag, attrs = Map.empty, textContent = [], innerHTML = [],
     childElementCount = 0, target = None, wrap_promise = None, srcCode = [],
     executed = False, display = []\<rparr>"

text \<open>\<^verbatim>\<open>document.createElement("script-py")\<close>: a new element, attached nowhere.\<close>

definition createElement :: "string \<Rightarrow> state \<Rightarrow> elem \<times> state" where
  "createElement tag s =
     (next_elem s, s\<lparr>nodes := (nodes s)(next_elem s := new_node tag), next_elem := Suc (next_elem s)\<rparr>)"

fun insert_after :: "'a \<Rightarrow> 'a \<Rightarrow> 'a list \<Rightarrow> 'a list" where
  "insert_after x y [] = []"
| "insert_after x y (z # zs) = (if z = x then z # y # zs else z # insert_after x y zs)"

text \<open>\<^verbatim>\<open>element.after(show)\<close>, for an element that is not in the head.\<close>

definition after :: "elem \<Rightarrow> elem \<Rightarrow> state \<Rightarrow> state" where
  "after element show_el s = s\<lparr>body := insert_after element show_el (body s)\<rparr>"

text \<open>The truth value JavaScript gives \<^verbatim>\<open>element.getAttribute("target")\<close>.\<close>

definition truthy :: "string option \<Rightarrow> bool" where
  "truthy a = (case a of None \<Rightarrow> False | Some v \<Rightarrow> v \<noteq> [])"

text \<open>The \<^verbatim>\<open>id\<close> property of an element reflects its \<^verbatim>\<open>id\<close> attribute.\<close>

definition node_id :: "node \<Rightarrow> string" where
  "node_id n = (case attrs n ''id'' of None \<Rightarrow> [] | Some v \<Rightarrow> v)"

definition set_id :: "elem \<Rightarrow> string \<Rightarrow> state \<Rightarrow> state" where
  "set_id e v s = s\<lparr>nodes := (nodes s)(e := (nodes s e)\<lparr>attrs := (attrs (nodes s e))(''id'' \<mapsto> v)\<rparr>)\<rparr>"

text \<open>
  Lines 219 to 228: \<^verbatim>\<open>show\<close> is what the lookup of the target gives, or a new element,
  which is then placed.
\<close>

definition resolve_show :: "env \<Rightarrow> elem \<Rightarrow> state \<Rightarrow> lookup \<times> state" where
  "resolve_show env element s =
     (let tgt = attrs (nodes s element) ''target'' in
      if truthy tgt then (queryTarget env s element (the tgt), s)
      else (let (show_el, s1) = createElement ''SCRIPT-PY'' s
            in (Found show_el,
                if element \<in> set (head s1) then s1\<lparr>body := body s1 @ [show_el]\<rparr>
                else after element show_el s1)))"

text \<open>\<^verbatim>\<open>if (!show.id) show.id = getID()\<close>\<close>

definition ensure_id :: "env \<Rightarrow> elem \<Rightarrow> state \<Rightarrow> state" where
  "ensure_id env show_el s =
     (if node_id (nodes s show_el) = [] then (let (i, s1) = getID env s in set_id show_el i s1)
      else s)"

text \<open>
  \<^verbatim>\<open>defineProperty(element, "target", { value: show })\<close>: the property it defines can
  neither be written nor configured, so that a second definition with another value
  throws a TypeError and one with the same value changes nothing.
\<close>

definition define_target :: "elem \<Rightarrow> elem \<Rightarrow> state \<Rightarrow> completion \<times> state" where
  "define_target element show_el s =
     (case target (nodes s element) of
        None \<Rightarrow>
          (Normal, s\<lparr>nodes := (nodes s)(element := (nodes s element)\<lparr>target := Some show_el\<rparr>)\<rparr>)
      | Some old \<Rightarrow> if old = show_el then (Normal, s) else (Throw ''TypeError'', s))"

subsection \<open>The custom element\<close>

text \<open>
  \<^verbatim>\<open>connectedCallback\<close> after \<^verbatim>\<open>await this._wrap.promise\<close> gave the wrap \<open>w\<close>: the source
  is resolved, the children are replaced, the element is shown, \<^verbatim>\<open>ready\<close> is dispatched
  and the code is run. An exception of \<^verbatim>\<open>run\<close> rejects the promise of the callback, which
  nobody awaits: the state is what it was when the exception was thrown.
\<close>

definition connected_resume :: "env \<Rightarrow> wrap \<Rightarrow> elem \<Rightarrow> bool \<Rightarrow> state \<Rightarrow> state" where
  "connected_resume env w this isAsync s =
     (let (evs, code) = fetchSource env (nodes s this) w (childElementCount (nodes s this) = 0);
          s1 = emits evs s;
          s2 = s1\<lparr>nodes := (nodes s1)(this := (nodes s1 this)
                 \<lparr>srcCode := code, childElementCount := 0, textContent := [], innerHTML := [],
                  display := ''block''\<rparr>)\<rparr>;
          s3 = emit (Dispatch this (flavor env) ''ready'') s2
      in if isAsync then
           (let s4 = emit (RunAsync this w code) s3
            in case runAsync env w code of
                 Fulfilled \<Rightarrow> dispatchDone env this s4
               | Rejected e \<Rightarrow> s4
               | Pending \<Rightarrow> s4)
         else
           (let s4 = emit (Run this w code) s3
            in case run env w code of
                 Normal \<Rightarrow> dispatchDone env this s4
               | Throw e \<Rightarrow> s4))"

text \<open>
  \<^verbatim>\<open>connectedCallback\<close>: the guard on \<^verbatim>\<open>executed\<close>, the flag set before the first
  \<^verbatim>\<open>await\<close>, then the wait for the wrap: the call goes on at once when the wrap is
  there, and joins the queue otherwise.
\<close>

definition connectedCallback :: "env \<Rightarrow> elem \<Rightarrow> state \<Rightarrow> state" where
  "connectedCallback env this s =
     (if executed (nodes s this) then s
      else (let s1 = s\<lparr>nodes := (nodes s)(this := (nodes s this)\<lparr>executed := True\<rparr>)\<rparr>;
                isAsync = \<not> isSync env (nodes s1 this)
            in case wrap_promise (nodes s1 this) of
                 None \<Rightarrow> s1\<lparr>waiting := waiting s1 @ [(this, isAsync)]\<rparr>
               | Some w \<Rightarrow> connected_resume env w this isAsync s1))"

text \<open>The continuations of \<open>element\<close> in a queue, resumed in the order they were suspended.\<close>

fun resume_waiting :: "env \<Rightarrow> wrap \<Rightarrow> elem \<Rightarrow> (elem \<times> bool) list \<Rightarrow> state \<Rightarrow> state" where
  "resume_waiting env w element [] s = s"
| "resume_waiting env w element ((e, isAsync) # rest) s =
     resume_waiting env w element rest
       (if e = element then connected_resume env w e isAsync s else s)"

text \<open>
  \<^verbatim>\<open>element._wrap.resolve(wrap)\<close> followed by \<^verbatim>\<open>console.debug\<close>: a promise that is
  already resolved stays as it is; otherwise the continuations waiting for it run once
  \<^verbatim>\<open>onReady\<close> has returned.
\<close>

definition resolve_wrap :: "env \<Rightarrow> wrap \<Rightarrow> elem \<Rightarrow> state \<Rightarrow> state" where
  "resolve_wrap env w element s =
     (case wrap_promise (nodes s element) of
        Some w0 \<Rightarrow> emit Debug s
      | None \<Rightarrow>
          (let s1 = s\<lparr>nodes := (nodes s)(element := (nodes s element)\<lparr>wrap_promise := Some w\<rparr>)\<rparr>;
               s2 = emit Debug s1;
               queue = waiting s2;
               s3 = s2\<lparr>waiting := filter (\<lambda>p. fst p \<noteq> element) queue\<rparr>
           in resume_waiting env w element queue s3))"

subsection \<open>The ready checkpoint\<close>

text \<open>
  Lines 236 to 243 and 248: \<^verbatim>\<open>ready\<close> is dispatched, then the argument of \<^verbatim>\<open>run\<close> is
  evaluated (\<^verbatim>\<open>await fetchSource(element, wrap.io, true)\<close>), then the code is run.
  A synchronous \<^verbatim>\<open>run\<close> that throws leaves \<^verbatim>\<open>onReady\<close>; the callback given to
  \<^verbatim>\<open>result.then\<close> runs after \<^verbatim>\<open>onReady\<close> has returned, and only on fulfilment.
\<close>

definition run_script :: "env \<Rightarrow> wrap \<Rightarrow> elem \<Rightarrow> bool \<Rightarrow> state \<Rightarrow> completion \<times> state" where
  "run_script env w element isAsync s =
     (let s1 = emit (Dispatch element (flavor env) ''ready'') s;
          (evs, code) = fetchSource env (nodes s1 element) w True;
          s2 = emits evs s1
      in if isAsync then
           (let s3 = emit Debug (emit (RunAsync element w code) s2)
            in (Normal, case runAsync env w code of
                          Fulfilled \<Rightarrow> dispatchDone env element s3
                        | Rejected e \<Rightarrow> s3
                        | Pending \<Rightarrow> s3))
         else
           (let s3 = emit (Run element w code) s2
            in case run env w code of
                 Normal \<Rightarrow> (Normal, emit Debug (dispatchDone env element s3))
               | Throw e \<Rightarrow> (Throw e, s3)))"

text \<open>
  Lines 217 to 243. A lookup that throws leaves \<^verbatim>\<open>onReady\<close>; reading \<^verbatim>\<open>show.id\<close> of a
  target that was not found (\<^verbatim>\<open>null\<close>) throws a TypeError; so does \<^verbatim>\<open>defineProperty\<close> on
  an element that has another target already, after the id was assigned.
\<close>

definition ready_script :: "env \<Rightarrow> wrap \<Rightarrow> elem \<Rightarrow> state \<Rightarrow> completion \<times> state" where
  "ready_script env w element s =
     (let isAsync = \<not> isSync env (nodes s element);
          (found, s1) = resolve_show env element s
      in case found of
           LookupThrows err \<Rightarrow> (Throw err, s1)
         | NotFound \<Rightarrow> (Throw ''TypeError'', s1)
         | Found show_el \<Rightarrow>
             (case define_target element show_el (ensure_id env show_el s1) of
                (Throw err, s2) \<Rightarrow> (Throw err, s2)
              | (Normal, s2) \<Rightarrow> run_script env w element isAsync s2))"

text \<open>The message of lines 208 to 212.\<close>

definition conflict_message :: "env \<Rightarrow> string \<Rightarrow> node \<Rightarrow> string" where
  "conflict_message env message n =
     ''('' @ CONFLICTING_CODE env @ '') '' @ message @ '' for ''
       @ outerHTML env n (message = INVALID_CONTENT env)"

text \<open>\<^verbatim>\<open>hooks.main.onReady(wrap, element)\<close>\<close>

definition onReady :: "env \<Rightarrow> wrap \<Rightarrow> elem \<Rightarrow> state \<Rightarrow> completion \<times> state" where
  "onReady env w element s =
     (case await_callbacks (main env ''onReady'') w element (registerModule w s) of
        (Throw e, s1) \<Rightarrow> (Throw e, s1)
      | (Normal, s1) \<Rightarrow>
          (case errors s1 element of
             Some message \<Rightarrow>
               (let s2 = s1\<lparr>errors := (errors s1)(element := None)\<rparr>
                in (Normal, emit (Stderr w (conflict_message env message (nodes s2 element))) s2))
           | None \<Rightarrow>
               if isScript (nodes s1 element) then ready_script env w element s1
               else (Normal, resolve_wrap env w element s1)))"

text \<open>\<^verbatim>\<open>onerror(error, element) { errors.set(element, error) }\<close>, with the message of the error.\<close>

definition onerror :: "string \<Rightarrow> elem \<Rightarrow> state \<Rightarrow> state" where
  "onerror message element s = s\<lparr>errors := (errors s)(element \<mapsto> message)\<rparr>"

subsection \<open>The hook tables\<close>




subsection \<open>The page as a sequence of callbacks\<close>

text \<open>
  What the browser and the runtime may do to a flavor, in any order and any number of
  times: attach a custom element (\<^verbatim>\<open>connectedCallback\<close>), reach the ready checkpoint of an
  element (\<^verbatim>\<open>onReady\<close>), report an error for an element (\<^verbatim>\<open>onerror\<close>), announce a worker
  (\<^verbatim>\<open>onWorker\<close>), call one of the four hooks around a run. Each callback is followed to
  its end, or to its suspension at the wait for the wrap, before the next one starts.
\<close>

datatype action =
    Attach elem
  | Ready wrap elem
  | OnError string elem
  | Worker nat nat
  | BeforeRun wrap elem
  | BeforeRunAsync wrap elem
  | AfterRun wrap elem
  | AfterRunAsync wrap elem

fun step :: "env \<Rightarrow> action \<Rightarrow> state \<Rightarrow> state" where
  "step env (Attach e) s = connectedCallback env e s"
| "step env (Ready w e) s = snd (onReady env w e s)"
| "step env (OnError m e) s = onerror m e s"
| "step env (Worker u x) s = snd (onWorker env u x s)"
| "step env (BeforeRun w e) s = snd (onBeforeRun env w e s)"
| "step env (BeforeRunAsync w e) s = snd (onBeforeRunAsync env w e s)"
| "step env (AfterRun w e) s = snd (onAfterRun env w e s)"
| "step env (AfterRunAsync w e) s = snd (onAfterRunAsync env w e s)"

fun exec :: "env \<Rightarrow> action list \<Rightarrow> state \<Rightarrow> state" where
  "exec env [] s = s"
| "exec env (a # as) s = exec env as (step env a s)"

section \<open>The module: worker constructors and the singleton\<close>

subsection \<open>Promises and \<^verbatim>\<open>await\<close>\<close>

text \<open>
  The two kinds of value the file awaits or calls under the name \<^verbatim>\<open>plugins\<close>: a function
  that returns a promise when called, and a promise. \<^verbatim>\<open>await\<close> of a promise waits for
  it to settle; \<^verbatim>\<open>await\<close> of a value that is no promise goes on with the value.
\<close>

datatype jsvalue = JFunction "unit \<Rightarrow> settlement" | JPromise settlement

datatype awaited = Resumes | Raises string | Suspends

fun await :: "jsvalue \<Rightarrow> awaited" where
  "await (JPromise Fulfilled) = Resumes"
| "await (JPromise (Rejected e)) = Raises e"
| "await (JPromise Pending) = Suspends"
| "await (JFunction f) = Resumes"

subsection \<open>Data\<close>

type_synonym obj = nat

text \<open>
  The entry \<^verbatim>\<open>configs.get(TYPE)\<close> of config.js: line 120 destructures it and line 189
  calls its \<^verbatim>\<open>plugins\<close> and chains \<^verbatim>\<open>then\<close> on the result, so \<open>plugins\<close> is a function
  that returns the plugin-bootstrap promise.
\<close>

record config_entry =
  config_of :: string
  configURL :: string
  plugins :: "unit \<Rightarrow> settlement"
  error :: "string option"

text \<open>The object given to \<^verbatim>\<open>stickyModule\<close>; each member is the identity of an object.\<close>

record exports =
  PyWorker :: "obj option"
  MPWorker :: "obj option"
  hooks :: obj
  config :: obj
  whenDefined :: obj

text \<open>
  What the page holds for every copy of the module: the slots of \<^verbatim>\<open>globalThis\<close> keyed by
  \<^verbatim>\<open>Symbol.for(name)\<close>, the names given to \<^verbatim>\<open>customElements.define\<close>, the types given
  to polyscript's \<^verbatim>\<open>define\<close>, the properties written on each exported config object, and
  the next unused object identity.
\<close>

record process =
  sticky :: "string \<rightharpoonup> exports"
  customElements :: "string list"
  defined :: "string list"
  config_props :: "obj \<Rightarrow> (string \<times> string) list"
  next_obj :: obj

text \<open>
  One evaluation of core.js: what it exports, the flag \<^verbatim>\<open>alreadyLive\<close>, its map
  \<^verbatim>\<open>hooked\<close>, and the flavors whose \<^verbatim>\<open>plugins().then(...)\<close> it has started.
\<close>

record module_instance =
  exported :: exports
  alreadyLive :: bool
  hooked :: "string \<rightharpoonup> obj"
  bootstrapping :: "string list"

text \<open>
  What a copy of the module brings along: \<^verbatim>\<open>TYPES\<close> (types.js), \<^verbatim>\<open>configs\<close> (config.js)
  and the objects \<^verbatim>\<open>hooks\<close> (hooks.js) and \<^verbatim>\<open>whenDefined\<close> (polyscript) it imports.
\<close>

record module_imports =
  TYPES :: "(string \<times> string) list"
  configs :: "string \<Rightarrow> config_entry"
  imp_hooks :: obj
  imp_whenDefined :: obj

subsection \<open>\<^verbatim>\<open>stickyModule\<close> and the loop over the flavors\<close>

text \<open>
  Modelled from the spec: \<^verbatim>\<open>stickyModule\<close> of the package sticky-module, which is not
  part of the sources. Section 4.1: on load a well-known process-wide slot is checked; if
  absent it is created and populated with this instance's exports and marked not yet
  live; if present the existing exports are adopted.
\<close>

definition stickyModule :: "string \<Rightarrow> exports \<Rightarrow> process \<Rightarrow> (exports \<times> bool) \<times> process" where
  "stickyModule name v p =
     (case sticky p name of
        Some known \<Rightarrow> ((known, True), p)
      | None \<Rightarrow> ((v, False), p\<lparr>sticky := (sticky p)(name \<mapsto> v)\<rparr>))"

definition nth_opt :: "'a list \<Rightarrow> nat \<Rightarrow> 'a option" where
  "nth_opt xs i = (if i < length xs then Some (xs ! i) else None)"

text \<open>
  The synchronous part of \<^verbatim>\<open>for (const [TYPE, interpreter] of TYPES)\<close>: the \<^verbatim>\<open>break\<close> on
  \<^verbatim>\<open>alreadyLive\<close>, the call \<^verbatim>\<open>plugins().then(...)\<close> when the config has no error, and
  \<^verbatim>\<open>exportedConfig[TYPE] = structuredClone(config)\<close>. It returns the flavors whose
  bootstrap it started.
\<close>

fun flavor_loop :: "(string \<Rightarrow> config_entry) \<Rightarrow> bool \<Rightarrow> obj \<Rightarrow> (string \<times> string) list \<Rightarrow>
    process \<Rightarrow> string list \<times> process" where
  "flavor_loop cfgs live exportedConfig [] p = ([], p)"
| "flavor_loop cfgs live exportedConfig ((T, interpreter) # rest) p =
     (if live then ([], p)
      else (let entry = cfgs T;
                p1 = p\<lparr>config_props := (config_props p)
                       (exportedConfig := config_props p exportedConfig @ [(T, config_of entry)])\<rparr>;
                (started, p2) = flavor_loop cfgs live exportedConfig rest p1
            in ((if error entry = None then [T] else []) @ started, p2)))"

text \<open>
  The evaluation of the module: the worker constructors (one new function per flavor,
  the first two named), the call of \<^verbatim>\<open>stickyModule\<close> with a new config object, and the
  loop.
\<close>

definition load_core :: "module_imports \<Rightarrow> process \<Rightarrow> module_instance \<times> process" where
  "load_core imp p =
     (let n = length (TYPES imp);
          workers = map (\<lambda>i. next_obj p + i) [0..<n];
          cfg = next_obj p + n;
          p1 = p\<lparr>next_obj := next_obj p + n + 1\<rparr>;
          v = \<lparr>PyWorker = nth_opt workers 0, MPWorker = nth_opt workers 1,
               hooks = imp_hooks imp, config = cfg, whenDefined = imp_whenDefined imp\<rparr>;
          ((x, live), p2) = stickyModule ''@pyscript/core'' v p1;
          (started, p3) = flavor_loop (configs imp) live (config x) (TYPES imp) p2
      in (\<lparr>exported = x, alreadyLive = live, hooked = Map.empty, bootstrapping = started\<rparr>, p3))"

text \<open>
  The callback of \<^verbatim>\<open>plugins().then(...)\<close> for one flavor: the hook table is built and
  stored in \<^verbatim>\<open>hooked\<close>, the type is defined, the custom element is registered.
  \<^verbatim>\<open>customElements.define\<close> throws on a name that is taken.
\<close>

definition plugins_then :: "string \<Rightarrow> module_instance \<Rightarrow> process \<Rightarrow>
    completion \<times> module_instance \<times> process" where
  "plugins_then T m p =
     (let table = next_obj p;
          m1 = m\<lparr>hooked := (hooked m)(T \<mapsto> table)\<rparr>;
          p1 = p\<lparr>next_obj := Suc (next_obj p), defined := defined p @ [T]\<rparr>;
          name = T @ ''-script''
      in if name \<in> set (customElements p1) then (Throw ''NotSupportedError'', m1, p1)
         else (Normal, m1, p1\<lparr>customElements := customElements p1 @ [name]\<rparr>))"

text \<open>The bootstrap of a started flavor: the callback runs once the promise is fulfilled.\<close>

definition bootstrap :: "module_imports \<Rightarrow> string \<Rightarrow> module_instance \<Rightarrow> process \<Rightarrow>
    completion \<times> module_instance \<times> process" where
  "bootstrap imp T m p =
     (if T \<in> set (bootstrapping m) \<and> plugins (configs imp T) () = Fulfilled
      then plugins_then T (m\<lparr>bootstrapping := removeAll T (bootstrapping m)\<rparr>) p
      else (Normal, m, p))"

subsection \<open>The worker constructor\<close>

text \<open>
  The call \<^verbatim>\<open>XWorker.call(new Hook(null, hooked.get(TYPE)), file, {...options, type})\<close>
  followed by \<^verbatim>\<open>assign(xworker.sync, sync)\<close>, as one record: the hook table given, the
  file, the options and whether the synchronization object was assigned.
\<close>

record xworker =
  hook_table :: "obj option"
  worker_file :: string
  options :: "string \<rightharpoonup> string"
  sync_assigned :: bool

text \<open>
  What a call of \<^verbatim>\<open>PyScriptWorker\<close> comes to: suspended for ever at its \<^verbatim>\<open>await\<close>,
  rejected, or returning \<^verbatim>\<open>xworker.ready\<close> of the worker it built.
\<close>

datatype spawned = StillWaiting | SpawnFailed string | ReadyOf xworker

text \<open>
  \<^verbatim>\<open>async function PyScriptWorker(file, options)\<close> for the flavor \<open>(T, interpreter)\<close>:
  line 64 awaits the member \<^verbatim>\<open>plugins\<close> itself, the function, and not the promise that
  calling it returns.
\<close>

definition PyScriptWorker :: "module_imports \<Rightarrow> module_instance \<Rightarrow> string \<Rightarrow> string \<Rightarrow> string \<Rightarrow>
    (string \<rightharpoonup> string) \<Rightarrow> spawned" where
  "PyScriptWorker imp m T interpreter f opts =
     (case await (JFunction (plugins (configs imp T))) of
        Suspends \<Rightarrow> StillWaiting
      | Raises e \<Rightarrow> SpawnFailed e
      | Resumes \<Rightarrow>
          ReadyOf \<lparr>hook_table = hooked m T, worker_file = f,
                   options = opts(''type'' \<mapsto> interpreter), sync_assigned = True\<rparr>)"

text \<open>
  The constructor in the words of the specification (section 4.5: it waits for the
  flavor's plugin-bootstrap promise to settle), to be compared with the one above: the
  same body behind the promise that \<^verbatim>\<open>plugins()\<close> returns.
\<close>

definition PyScriptWorker_spec :: "module_imports \<Rightarrow> module_instance \<Rightarrow> string \<Rightarrow>
    string \<Rightarrow> string \<Rightarrow> (string \<rightharpoonup> string) \<Rightarrow> spawned" where
  "PyScriptWorker_spec imp m T interpreter f opts =
     (case await (JPromise (plugins (configs imp T) ())) of
        Suspends \<Rightarrow> StillWaiting
      | Raises e \<Rightarrow> SpawnFailed e
      | Resumes \<Rightarrow>
          ReadyOf \<lparr>hook_table = hooked m T, worker_file = f,
                   options = opts(''type'' \<mapsto> interpreter), sync_assigned = True\<rparr>)"

section \<open>Observations on traces\<close>

text \<open>The events a call added to the trace.\<close>

definition new_events :: "state \<Rightarrow> state \<Rightarrow> event list" where
  "new_events s s' = drop (length (trace s)) (trace s')"

fun is_fetch :: "event \<Rightarrow> bool" where
  "is_fetch (Fetch u) = True"
| "is_fetch x = False"

fun is_stderr :: "event \<Rightarrow> bool" where
  "is_stderr (Stderr w m) = True"
| "is_stderr x = False"

text \<open>The calls of \<^verbatim>\<open>run\<close> and \<^verbatim>\<open>runAsync\<close> made for the unit \<open>e\<close>.\<close>

fun is_run_of :: "elem \<Rightarrow> event \<Rightarrow> bool" where
  "is_run_of e (Run e' w c) = (e' = e)"
| "is_run_of e (RunAsync e' w c) = (e' = e)"
| "is_run_of e x = False"

fun is_run :: "event \<Rightarrow> bool" where
  "is_run (Run e w c) = True"
| "is_run (RunAsync e w c) = True"
| "is_run x = False"

fun is_plugin_event :: "event \<Rightarrow> bool" where
  "is_plugin_event (Invoke n) = True"
| "is_plugin_event (Awaited n) = True"
| "is_plugin_event x = False"

fun is_source_event :: "event \<Rightarrow> bool" where
  "is_source_event (Fetch u) = True"
| "is_source_event (Stderr w m) = True"
| "is_source_event (Warn c) = True"
| "is_source_event x = False"

text \<open>Whether the run an event stands for came to its end: returned, or was fulfilled.\<close>

fun completed :: "env \<Rightarrow> event \<Rightarrow> bool" where
  "completed env (Run e w c) = (run env w c = Normal)"
| "completed env (RunAsync e w c) = (runAsync env w c = Fulfilled)"
| "completed env x = False"

text \<open>\<open>before a b tr\<close>: \<open>a\<close> occurs in \<open>tr\<close> ahead of the first \<open>b\<close>.\<close>

definition before :: "event \<Rightarrow> event \<Rightarrow> event list \<Rightarrow> bool" where
  "before a b tr = (a \<in> set (takeWhile (\<lambda>x. x \<noteq> b) tr))"

subsection \<open>The events of each phase of the ready checkpoint\<close>

text \<open>What \<^verbatim>\<open>registerModule\<close> adds to the trace.\<close>

definition register_events :: "wrap \<Rightarrow> state \<Rightarrow> event list" where
  "register_events w s =
     (if alreadyRegistered s then []
      else [RegisterJsModule w ''_pyscript''
              [''PyWorker'', ''fs'', ''interpreter'', ''js_import'', ''target'']])"

text \<open>What the awaited loop over the callbacks adds, and how it ends.\<close>

fun chain_events :: "callback list \<Rightarrow> event list" where
  "chain_events [] = []"
| "chain_events (c # cs) =
     (case cb_result c of
        Normal \<Rightarrow> Invoke (cb_name c) # Awaited (cb_name c) # chain_events cs
      | Throw e \<Rightarrow> [Invoke (cb_name c)])"

fun chain_result :: "callback list \<Rightarrow> completion" where
  "chain_result [] = Normal"
| "chain_result (c # cs) = (case cb_result c of Normal \<Rightarrow> chain_result cs | Throw e \<Rightarrow> Throw e)"

text \<open>What the loop without \<^verbatim>\<open>await\<close> adds.\<close>

fun call_events :: "callback list \<Rightarrow> event list" where
  "call_events [] = []"
| "call_events (c # cs) =
     (case cb_result c of
        Normal \<Rightarrow> Invoke (cb_name c) # call_events cs
      | Throw e \<Rightarrow> [Invoke (cb_name c)])"

text \<open>
  What follows the resolution of the source of a script: the run, then \<^verbatim>\<open>done\<close> if the
  run came to its end (for \<^verbatim>\<open>runAsync\<close>, after \<^verbatim>\<open>onReady\<close> has logged and returned).
\<close>

definition run_events :: "env \<Rightarrow> elem \<Rightarrow> wrap \<Rightarrow> bool \<Rightarrow> string \<Rightarrow> event list" where
  "run_events env e w isAsync code =
     (if isAsync then
        RunAsync e w code # Debug #
          (if runAsync env w code = Fulfilled then [Dispatch e (flavor env) ''done''] else [])
      else
        Run e w code #
          (if run env w code = Normal then [Dispatch e (flavor env) ''done'', Debug] else []))"

text \<open>The two custom events of a unit.\<close>

definition ready_ev :: "env \<Rightarrow> elem \<Rightarrow> event" where
  "ready_ev env e = Dispatch e (flavor env) ''ready''"

definition done_ev :: "env \<Rightarrow> elem \<Rightarrow> event" where
  "done_ev env e = Dispatch e (flavor env) ''done''"

text \<open>
  What follows the resolution of the source of a custom element: the run, then
  \<^verbatim>\<open>done\<close> if the run came to its end.
\<close>

definition resume_events :: "env \<Rightarrow> elem \<Rightarrow> wrap \<Rightarrow> bool \<Rightarrow> string \<Rightarrow> event list" where
  "resume_events env e w isAsync code =
     (if isAsync then
        RunAsync e w code #
          (if runAsync env w code = Fulfilled then [Dispatch e (flavor env) ''done''] else [])
      else
        Run e w code #
          (if run env w code = Normal then [Dispatch e (flavor env) ''done''] else []))"

fun is_register :: "event \<Rightarrow> bool" where
  "is_register (RegisterJsModule w n ms) = True"
| "is_register x = False"

text \<open>
  The events the core adds while it handles the unit \<open>e\<close>, registration and plugin
  calls apart.
\<close>

fun belongs_to :: "elem \<Rightarrow> event \<Rightarrow> bool" where
  "belongs_to e (Fetch u) = True"
| "belongs_to e (Stderr w m) = True"
| "belongs_to e (Warn c) = True"
| "belongs_to e Debug = True"
| "belongs_to e (Dispatch e' t n) = (e' = e)"
| "belongs_to e (Run e' w c) = (e' = e)"
| "belongs_to e (RunAsync e' w c) = (e' = e)"
| "belongs_to e x = False"

text \<open>The callbacks a trace shows as called, in the order of the calls.\<close>

fun invoked :: "event list \<Rightarrow> string list" where
  "invoked [] = []"
| "invoked (x # es) = (case x of Invoke n \<Rightarrow> n # invoked es | _ \<Rightarrow> invoked es)"


text \<open>The number of runs of the unit \<open>e\<close> in a trace, and of its suspended callbacks.\<close>

definition runs :: "elem \<Rightarrow> event list \<Rightarrow> nat" where
  "runs e tr = length (filter (is_run_of e) tr)"

definition readies :: "env \<Rightarrow> elem \<Rightarrow> event list \<Rightarrow> nat" where
  "readies env e tr = length (filter (\<lambda>x. x = ready_ev env e) tr)"

definition suspended :: "elem \<Rightarrow> state \<Rightarrow> nat" where
  "suspended e s = length (filter (\<lambda>p. fst p = e) (waiting s))"

definition registrations :: "event list \<Rightarrow> nat" where
  "registrations tr = length (filter is_register tr)"

subsection \<open>The hook registry\<close>







text \<open>
  What holds of a custom element \<open>e\<close> at any moment: it is no script and its identity is
  in use; every \<^verbatim>\<open>ready\<close> it dispatched was followed by a run; its runs and its suspended
  callbacks together are at most one, and none unless \<^verbatim>\<open>executed\<close> is set; nothing is
  suspended once its wrap is resolved.
\<close>

definition unit_inv :: "env \<Rightarrow> elem \<Rightarrow> state \<Rightarrow> bool" where
  "unit_inv env e s \<longleftrightarrow>
     \<not> isScript (nodes s e) \<and> e < next_elem s
     \<and> readies env e (trace s) = runs e (trace s)
     \<and> runs e (trace s) + suspended e s \<le> (if executed (nodes s e) then 1 else 0)
     \<and> (wrap_promise (nodes s e) \<noteq> None \<longrightarrow> suspended e s = 0)"


subsection \<open>The ready checkpoint of one unit\<close>

text \<open>
  The state in which \<^verbatim>\<open>onReady\<close> reads the ledger (line 207) and, for a script, the
  element and the document (lines 218 to 241): the module is registered and the plugin
  callbacks have run.
\<close>

definition after_plugins :: "env \<Rightarrow> wrap \<Rightarrow> elem \<Rightarrow> state \<Rightarrow> state" where
  "after_plugins env w element s =
     snd (await_callbacks (main env ''onReady'') w element (registerModule w s))"

text \<open>Whether an action is a ready checkpoint of the unit \<open>e\<close>.\<close>

fun is_ready_of :: "elem \<Rightarrow> action \<Rightarrow> bool" where
  "is_ready_of e (Ready w e') = (e' = e)"
| "is_ready_of e a = False"

text \<open>
  A unit that has not started: nothing was run or dispatched for it, and (for a custom
  element) its wrap is still pending.
\<close>

definition never_started :: "env \<Rightarrow> elem \<Rightarrow> state \<Rightarrow> bool" where
  "never_started env e s \<longleftrightarrow>
     runs e (trace s) = 0 \<and> ready_ev env e \<notin> set (trace s) \<and> done_ev env e \<notin> set (trace s)
     \<and> wrap_promise (nodes s e) = None"

text \<open>
  Whether the ready checkpoint of \<open>e\<close> that starts in \<open>s\<close> consumes a pending error: an
  error is recorded for \<open>e\<close> when it starts and none is when it ends.
\<close>

definition consumed :: "env \<Rightarrow> wrap \<Rightarrow> elem \<Rightarrow> state \<Rightarrow> bool" where
  "consumed env w e s \<longleftrightarrow> errors s e \<noteq> None \<and> errors (snd (onReady env w e s)) e = None"

text \<open>The events that belong to no unit: registration, plugin calls, worker set-up.\<close>

fun is_quiet :: "event \<Rightarrow> bool" where
  "is_quiet (RegisterJsModule w n ms) = True"
| "is_quiet (Invoke n) = True"
| "is_quiet (Awaited n) = True"
| "is_quiet (AssignSync x) = True"
| "is_quiet x = False"

text \<open>
  On the events of the unit \<open>e\<close> in a trace: \<^verbatim>\<open>done\<close> was dispatched exactly when one of
  its runs came to its end, and it was run only if \<^verbatim>\<open>ready\<close> was dispatched.
\<close>

definition lifecycle :: "env \<Rightarrow> elem \<Rightarrow> event list \<Rightarrow> bool" where
  "lifecycle env e tr \<longleftrightarrow>
     (done_ev env e \<in> set tr \<longleftrightarrow> (\<exists>x\<in>set tr. is_run_of e x \<and> completed env x))
     \<and> ((\<exists>x\<in>set tr. is_run_of e x) \<longrightarrow> ready_ev env e \<in> set tr)"

text \<open>
  What a loop over the callbacks of the checkpoint \<open>name\<close> adds to the trace: with
  \<^verbatim>\<open>await\<close> when the name ends in \<^verbatim>\<open>Async\<close>, without otherwise.
\<close>

definition hook_events :: "(string \<Rightarrow> callback list) \<Rightarrow> string \<Rightarrow> event list" where
  "hook_events query name =
     (if is_async_hook name then chain_events (query name) else call_events (query name))"

section \<open>A small page\<close>

text \<open>
  Collaborators and a document used to evaluate the model: polyscript's constants, a
  lookup of targets by id among the elements of the document, in document order (which
  throws on a target that is no selector), a network that serves \<^verbatim>\<open>main.py\<close> only, an interpreter that runs
  everything, no plugin.
\<close>

definition page_env :: env where
  "page_env = \<lparr>flavor = ''py'', CONFLICTING_CODE = ''PY0409'',
     INVALID_CONTENT = ''Invalid content'',
     isSync = (\<lambda>n. attrs n ''async'' = Some ''false''),
     queryTarget = (\<lambda>s e t.
        if t = ''['' then LookupThrows ''SyntaxError''
        else case filter (\<lambda>x. node_id (nodes s x) = t) (head s @ body s) of
               [] \<Rightarrow> NotFound
             | x # xs \<Rightarrow> Found x),
     dedent = (\<lambda>c. c), unescape = (\<lambda>c. c),
     fetch = (\<lambda>u. if u = ''main.py'' then Inr ''print(2)'' else Inl ''404''),
     main = (\<lambda>name. []), worker = (\<lambda>name. []),
     run = (\<lambda>w c. Normal), runAsync = (\<lambda>w c. Fulfilled),
     outerHTML = (\<lambda>n clone. ''<'' @ tagName n @ ''>'')\<rparr>"

text \<open>\<^verbatim>\<open><script type="py" src="missing.py">print(1)</script>\<close>\<close>

definition missing_src :: node where
  "missing_src = (new_node ''SCRIPT'')
     \<lparr>attrs := [''src'' \<mapsto> ''missing.py''], textContent := ''print(1)'', innerHTML := ''print(1)''\<rparr>"

text \<open>A flavor whose plugin bootstrap never settles, and the page before any load.\<close>

definition slow_plugins :: module_imports where
  "slow_plugins = \<lparr>TYPES = [(''py'', ''pyodide''), (''mpy'', ''micropython'')],
     configs = (\<lambda>T. \<lparr>config_of = ''{}'', configURL = ''./'', plugins = (\<lambda>u. Pending),
                      error = None\<rparr>),
     imp_hooks = 100, imp_whenDefined = 101\<rparr>"

definition second_copy :: module_imports where
  "second_copy = \<lparr>TYPES = [(''py'', ''pyodide''), (''mpy'', ''micropython'')],
     configs = (\<lambda>T. \<lparr>config_of = ''{}'', configURL = ''./'', plugins = (\<lambda>u. Fulfilled),
                      error = None\<rparr>),
     imp_hooks = 200, imp_whenDefined = 201\<rparr>"

definition fresh_process :: process where
  "fresh_process = \<lparr>sticky = Map.empty, customElements = [], defined = [],
     config_props = (\<lambda>x. []), next_obj = 0\<rparr>"

text \<open>\<^verbatim>\<open><script type="py" src="main.py"></script>\<close>, in the head.\<close>

definition head_script :: node where
  "head_script = (new_node ''SCRIPT'')\<lparr>attrs := [''src'' \<mapsto> ''main.py'']\<rparr>"

text \<open>\<^verbatim>\<open><py-script>print(3)</py-script>\<close>\<close>

definition py_script :: node where
  "py_script = (new_node ''PY-SCRIPT'')\<lparr>textContent := ''print(3)'', innerHTML := ''print(3)''\<rparr>"

text \<open>\<^verbatim>\<open><div id="out"></div>\<close>\<close>

definition out_div :: node where
  "out_div = (new_node ''DIV'')\<lparr>attrs := [''id'' \<mapsto> ''out'']\<rparr>"

text \<open>\<^verbatim>\<open><script type="py" target="">print(5)</script>\<close>\<close>

definition empty_target :: node where
  "empty_target = (new_node ''SCRIPT'')\<lparr>attrs := [''target'' \<mapsto> []], textContent := ''print(5)''\<rparr>"

text \<open>\<^verbatim>\<open><script type="py" target="out">print(6)</script>\<close>\<close>

definition out_target :: node where
  "out_target = (new_node ''SCRIPT'')\<lparr>attrs := [''target'' \<mapsto> ''out''], textContent := ''print(6)''\<rparr>"

text \<open>
  The document: element 4 in the head, elements 7, 5, 2, 3 and 6 in the body, nothing
  registered, recorded or run yet.
\<close>

definition page :: state where
  "page = \<lparr>nodes = (\<lambda>e. new_node ''DIV'')
       (2 := py_script, 3 := out_div, 4 := head_script, 5 := empty_target,
        6 := out_target, 7 := missing_src),
     head = [4], body = [7, 5, 2, 3, 6], next_elem = 8, id_n = 0,
     alreadyRegistered = False, currentElement = None, errors = Map.empty, waiting = [],
     trace = []\<rparr>"

text \<open>
  The same document with two more elements at the end of the body:
  \<^verbatim>\<open><div id="py-0"></div>\<close> and \<^verbatim>\<open><py-script src="main.py"></py-script>\<close>.
\<close>

definition larger_page :: state where
  "larger_page = page\<lparr>nodes := (nodes page)
       (8 := (new_node ''DIV'')\<lparr>attrs := [''id'' \<mapsto> ''py-0'']\<rparr>,
        9 := (new_node ''PY-SCRIPT'')\<lparr>attrs := [''src'' \<mapsto> ''main.py'']\<rparr>),
     body := [7, 5, 2, 3, 6, 8, 9], next_elem := 10\<rparr>"

text \<open>The same collaborators with one plugin whose \<^verbatim>\<open>onReady\<close> callback rejects.\<close>

definition rejecting_plugin :: env where
  "rejecting_plugin = page_env\<lparr>main := (\<lambda>name.
     if name = ''onReady'' then [Callback ''plugin'' (Throw ''boom'') (\<lambda>a b s. s)] else [])\<rparr>"

text \<open>
  The same collaborators with one plugin whose \<^verbatim>\<open>onReady\<close> callback gives the element
  it is called with the attribute \<^verbatim>\<open>target="out"\<close>.
\<close>

definition retarget :: "nat \<Rightarrow> nat \<Rightarrow> state \<Rightarrow> state" where
  "retarget a b s =
     s\<lparr>nodes := (nodes s)(b := (nodes s b)\<lparr>attrs := (attrs (nodes s b))(''target'' \<mapsto> ''out'')\<rparr>)\<rparr>"

definition retargeting_plugin :: env where
  "retargeting_plugin = page_env\<lparr>main := (\<lambda>name.
     if name = ''onReady'' then [Callback ''retarget'' Normal retarget] else [])\<rparr>"

text \<open>The same collaborators with an interpreter whose runs fail.\<close>

definition failing_runs :: env where
  "failing_runs = page_env\<lparr>run := (\<lambda>w c. Throw ''SyntaxError''),
     runAsync := (\<lambda>w c. Rejected ''SyntaxError'')\<rparr>"

text \<open>The same collaborators with an interpreter whose asynchronous runs never settle.\<close>

definition endless_runs :: env where
  "endless_runs = page_env\<lparr>runAsync := (\<lambda>w c. Pending)\<rparr>"



section \<open>Properties\<close>

subsection \<open>Source resolution\<close>

lemma inline_source_code:
  "snd (inline_source env tag asText) =
     (if asText then dedent env (textContent tag) else dedent env (unescape env (innerHTML tag)))"
  by (simp add: inline_source_def Let_def)

lemma inline_source_no_fetch: "filter is_fetch (fst (inline_source env tag asText)) = []"
  by (simp add: inline_source_def Let_def)

text \<open>
  C6. When the element has a \<^verbatim>\<open>src\<close> attribute and fetching it fails, \<^verbatim>\<open>fetchSource\<close>
  reports the error on the \<^verbatim>\<open>io.stderr\<close> it was given and returns the inline content
  (the de-indented text, or the de-indented unescaped markup; it may be empty) instead
  of failing; the reference is fetched exactly once.
\<close>

theorem fetch_failure_falls_back_to_inline:
  assumes "attrs tag ''src'' = Some url" and "fetch env url = Inl err"
  shows "snd (fetchSource env tag io asText) =
           (if asText then dedent env (textContent tag)
            else dedent env (unescape env (innerHTML tag)))
         \<and> take 2 (fst (fetchSource env tag io asText)) = [Fetch url, Stderr io err]
         \<and> filter is_stderr (fst (fetchSource env tag io asText)) = [Stderr io err]
         \<and> filter is_fetch (fst (fetchSource env tag io asText)) = [Fetch url]"
  using assms
  by (simp add: fetchSource_def inline_source_def Let_def split: prod.splits)

theorem fetch_failure_falls_back_to_inline_witness:
  "attrs missing_src ''src'' = Some ''missing.py'' \<and> fetch page_env ''missing.py'' = Inl ''404''
   \<and> fetchSource page_env missing_src 0 True = ([Fetch ''missing.py'', Stderr 0 ''404''], ''print(1)'')"
  using fetch_failure_falls_back_to_inline [of missing_src "''missing.py''" page_env "''404''" 0 True]
  by (simp add: missing_src_def page_env_def new_node_def fetchSource_def inline_source_def)

subsection \<open>The worker constructor\<close>

lemma PyScriptWorker_never_waits:
  "PyScriptWorker imp m T interpreter f opts =
     ReadyOf \<lparr>hook_table = hooked m T, worker_file = f,
              options = opts(''type'' \<mapsto> interpreter), sync_assigned = True\<rparr>"
  by (simp add: PyScriptWorker_def)

text \<open>
  C8. The constructor is documented to wait for the plugin bootstrap of its flavor
  before it builds the worker. With a bootstrap promise that is still pending, the code
  builds the worker at once (with no hook table, since \<^verbatim>\<open>hooked\<close> is filled by the
  callback of that same promise), while the constructor of the specification is still
  waiting: line 64 awaits the function \<^verbatim>\<open>plugins\<close>, which line 189 calls.
\<close>

theorem worker_built_before_plugins_settle:
  "plugins (configs slow_plugins ''py'') () = Pending
   \<and> PyScriptWorker slow_plugins (fst (load_core slow_plugins fresh_process))
        ''py'' ''pyodide'' ''worker.py'' Map.empty
      = ReadyOf \<lparr>hook_table = None, worker_file = ''worker.py'',
                 options = [''type'' \<mapsto> ''pyodide''], sync_assigned = True\<rparr>
   \<and> PyScriptWorker_spec slow_plugins (fst (load_core slow_plugins fresh_process))
        ''py'' ''pyodide'' ''worker.py'' Map.empty
      = StillWaiting"
  by (simp add: PyScriptWorker_def PyScriptWorker_spec_def slow_plugins_def fresh_process_def
      load_core_def stickyModule_def Let_def split: prod.splits)

subsection \<open>The singleton\<close>

lemma flavor_loop_live: "flavor_loop cfgs True x ts p = ([], p)"
  by (cases ts) auto

lemma load_core_adopts:
  assumes "sticky p ''@pyscript/core'' = Some x"
  shows "load_core imp p =
           (\<lparr>exported = x, alreadyLive = True, hooked = Map.empty, bootstrapping = []\<rparr>,
            p\<lparr>next_obj := next_obj p + length (TYPES imp) + 1\<rparr>)"
  using assms by (simp add: load_core_def stickyModule_def Let_def flavor_loop_live)

lemma flavor_loop_sticky: "sticky (snd (flavor_loop cfgs live x ts p)) = sticky p"
proof (induction ts arbitrary: p)
  case Nil
  show ?case by simp
next
  case (Cons t ts)
  obtain T i where t: "t = (T, i)" by (cases t)
  let ?p1 = "p\<lparr>config_props := (config_props p)
                (x := config_props p x @ [(T, config_of (cfgs T))])\<rparr>"
  have "sticky (snd (flavor_loop cfgs live x ts ?p1)) = sticky ?p1"
    by (rule Cons.IH)
  then show ?case
    by (cases live) (auto simp: t Let_def split: prod.splits)
qed

lemma load_core_first:
  assumes "sticky p ''@pyscript/core'' = None" and "load_core imp p = (m, p')"
  shows "sticky p' ''@pyscript/core'' = Some (exported m) \<and> \<not> alreadyLive m"
proof -
  let ?n = "length (TYPES imp)"
  let ?p1 = "p\<lparr>next_obj := next_obj p + ?n + 1\<rparr>"
  let ?v = "\<lparr>PyWorker = nth_opt (map (\<lambda>i. next_obj p + i) [0..<?n]) 0,
             MPWorker = nth_opt (map (\<lambda>i. next_obj p + i) [0..<?n]) 1,
             hooks = imp_hooks imp, config = next_obj p + ?n,
             whenDefined = imp_whenDefined imp\<rparr>"
  let ?p2 = "?p1\<lparr>sticky := (sticky ?p1)(''@pyscript/core'' \<mapsto> ?v)\<rparr>"
  obtain started p3 where fl: "flavor_loop (configs imp) False (config ?v) (TYPES imp) ?p2 = (started, p3)"
    by (cases "flavor_loop (configs imp) False (config ?v) (TYPES imp) ?p2") auto
  have "sticky p3 = sticky ?p2"
    using flavor_loop_sticky [of "configs imp" False "config ?v" "TYPES imp" ?p2] fl by simp
  moreover have "m = \<lparr>exported = ?v, alreadyLive = False, hooked = Map.empty, bootstrapping = started\<rparr>"
    and "p' = p3"
    using assms fl by (simp_all add: load_core_def stickyModule_def Let_def)
  ultimately show ?thesis by simp
qed

lemma bootstrap_idle: "bootstrapping m = [] \<Longrightarrow> bootstrap imp T m p = (Normal, m, p)"
  by (simp add: bootstrap_def)

text \<open>
  C5. After a first load into a page whose slot is empty, a second load (of any copy
  of the module, at any later time: only the slot matters) exports the very objects of
  the first load: the two worker constructors, the hook table, the config object and
  the \<^verbatim>\<open>whenDefined\<close> resolver. It is live, starts no plugin bootstrap, builds no hook
  table, and leaves the custom-element registry, the defined types and the exported
  config untouched; no bootstrap callback of the second load can run later.
\<close>

theorem second_load_adopts_first:
  assumes "sticky p0 ''@pyscript/core'' = None"
    and "load_core imp1 p0 = (m1, p1)"
    and "sticky p = sticky p1"
    and "load_core imp2 p = (m2, p2)"
  shows "exported m2 = exported m1
         \<and> \<not> alreadyLive m1 \<and> alreadyLive m2
         \<and> bootstrapping m2 = [] \<and> hooked m2 = Map.empty
         \<and> customElements p2 = customElements p \<and> defined p2 = defined p
         \<and> config_props p2 = config_props p \<and> sticky p2 = sticky p
         \<and> (\<forall>T. bootstrap imp2 T m2 p2 = (Normal, m2, p2))"
proof -
  have slot: "sticky p ''@pyscript/core'' = Some (exported m1)" and nl: "\<not> alreadyLive m1"
    using load_core_first [OF assms(1) assms(2)] assms(3) by simp_all
  have "m2 = \<lparr>exported = exported m1, alreadyLive = True, hooked = Map.empty, bootstrapping = []\<rparr>"
    and "p2 = p\<lparr>next_obj := next_obj p + length (TYPES imp2) + 1\<rparr>"
    using load_core_adopts [OF slot, of imp2] assms(4) by simp_all
  then show ?thesis using nl by (simp add: bootstrap_def)
qed

theorem second_load_adopts_first_witness:
  "sticky fresh_process ''@pyscript/core'' = None
   \<and> exported (fst (load_core second_copy (snd (load_core slow_plugins fresh_process))))
      = \<lparr>PyWorker = Some 0, MPWorker = Some 1, hooks = 100, config = 2, whenDefined = 101\<rparr>
   \<and> exported (fst (load_core slow_plugins fresh_process))
      = \<lparr>PyWorker = Some 0, MPWorker = Some 1, hooks = 100, config = 2, whenDefined = 101\<rparr>
   \<and> bootstrapping (fst (load_core slow_plugins fresh_process)) = [''py'', ''mpy'']
   \<and> bootstrapping (fst (load_core second_copy (snd (load_core slow_plugins fresh_process)))) = []"
proof -
  have a: "sticky fresh_process ''@pyscript/core'' = None"
    by (simp add: fresh_process_def)
  have first: "load_core slow_plugins fresh_process =
      (fst (load_core slow_plugins fresh_process), snd (load_core slow_plugins fresh_process))"
    by simp
  have second: "load_core second_copy (snd (load_core slow_plugins fresh_process)) =
      (fst (load_core second_copy (snd (load_core slow_plugins fresh_process))),
       snd (load_core second_copy (snd (load_core slow_plugins fresh_process))))"
    by simp
  have x: "exported (fst (load_core slow_plugins fresh_process))
      = \<lparr>PyWorker = Some 0, MPWorker = Some 1, hooks = 100, config = 2, whenDefined = 101\<rparr>"
    and b: "bootstrapping (fst (load_core slow_plugins fresh_process)) = [''py'', ''mpy'']"
    by (simp_all add: load_core_def stickyModule_def slow_plugins_def fresh_process_def
        nth_opt_def Let_def upt_rec split: prod.splits)
  show ?thesis
    using second_load_adopts_first [OF a first refl second] a x b by simp
qed

subsection \<open>The phases of the ready checkpoint\<close>

lemma emits_Nil [simp]: "emits [] s = s"
  by (simp add: emits_def)

lemma trace_emits [simp]: "trace (emits es s) = trace s @ es"
  by (simp add: emits_def)

lemma new_events_append: "trace s' = trace s @ es \<Longrightarrow> new_events s s' = es"
  by (simp add: new_events_def)

lemma new_events_self [simp]: "new_events s s = []"
  by (simp add: new_events_def)

lemma new_events_trans:
  assumes "trace s1 = trace s @ new_events s s1" and "trace s2 = trace s1 @ new_events s1 s2"
  shows "new_events s s2 = new_events s s1 @ new_events s1 s2
       \<and> trace s2 = trace s @ new_events s s2"
proof -
  obtain a where a: "trace s1 = trace s @ a" using assms(1) by blast
  obtain b where b: "trace s2 = trace s1 @ b" using assms(2) by blast
  show ?thesis by (simp add: new_events_def a b)
qed

lemma emits_fields [simp]:
  "nodes (emits es s) = nodes s" "head (emits es s) = head s" "body (emits es s) = body s"
  "next_elem (emits es s) = next_elem s" "id_n (emits es s) = id_n s"
  "alreadyRegistered (emits es s) = alreadyRegistered s" "errors (emits es s) = errors s"
  "waiting (emits es s) = waiting s" "currentElement (emits es s) = currentElement s"
  by (simp_all add: emits_def)

lemma emit_fields [simp]:
  "nodes (emit x s) = nodes s" "head (emit x s) = head s" "body (emit x s) = body s"
  "next_elem (emit x s) = next_elem s" "id_n (emit x s) = id_n s"
  "alreadyRegistered (emit x s) = alreadyRegistered s" "errors (emit x s) = errors s"
  "waiting (emit x s) = waiting s" "currentElement (emit x s) = currentElement s"
  "trace (emit x s) = trace s @ [x]"
  by (simp_all add: emit_def)

lemma plugin_edit_fields [simp]:
  "next_elem (plugin_edit c a b s) = next_elem s" "id_n (plugin_edit c a b s) = id_n s"
  "alreadyRegistered (plugin_edit c a b s) = alreadyRegistered s"
  "errors (plugin_edit c a b s) = errors s" "waiting (plugin_edit c a b s) = waiting s"
  "currentElement (plugin_edit c a b s) = currentElement s"
  "trace (plugin_edit c a b s) = trace s"
  "tagName (nodes (plugin_edit c a b s) x) = tagName (nodes s x)"
  "target (nodes (plugin_edit c a b s) x) = target (nodes s x)"
  "wrap_promise (nodes (plugin_edit c a b s) x) = wrap_promise (nodes s x)"
  "srcCode (nodes (plugin_edit c a b s) x) = srcCode (nodes s x)"
  "executed (nodes (plugin_edit c a b s) x) = executed (nodes s x)"
  "display (nodes (plugin_edit c a b s) x) = display (nodes s x)"
  by (simp_all add: plugin_edit_def Let_def)

lemma await_callbacks_keeps:
  assumes "\<And>c s. P (plugin_edit c a b s) = P s" and "\<And>x s. P (emit x s) = P s"
  shows "P (snd (await_callbacks cs a b s)) = P s"
  by (induction cs arbitrary: s) (auto simp: assms Let_def split: completion.splits)

lemma call_callbacks_keeps:
  assumes "\<And>c s. P (plugin_edit c a b s) = P s" and "\<And>x s. P (emit x s) = P s"
  shows "P (snd (call_callbacks cs a b s)) = P s"
  by (induction cs arbitrary: s) (auto simp: assms Let_def split: completion.splits)

lemma await_callbacks_fields [simp]:
  "next_elem (snd (await_callbacks cs a b s)) = next_elem s"
  "id_n (snd (await_callbacks cs a b s)) = id_n s"
  "alreadyRegistered (snd (await_callbacks cs a b s)) = alreadyRegistered s"
  "errors (snd (await_callbacks cs a b s)) = errors s"
  "waiting (snd (await_callbacks cs a b s)) = waiting s"
  "currentElement (snd (await_callbacks cs a b s)) = currentElement s"
  "tagName (nodes (snd (await_callbacks cs a b s)) x) = tagName (nodes s x)"
  "target (nodes (snd (await_callbacks cs a b s)) x) = target (nodes s x)"
  "wrap_promise (nodes (snd (await_callbacks cs a b s)) x) = wrap_promise (nodes s x)"
  "srcCode (nodes (snd (await_callbacks cs a b s)) x) = srcCode (nodes s x)"
  "executed (nodes (snd (await_callbacks cs a b s)) x) = executed (nodes s x)"
  using await_callbacks_keeps [of next_elem a b cs s]
    await_callbacks_keeps [of id_n a b cs s]
    await_callbacks_keeps [of alreadyRegistered a b cs s]
    await_callbacks_keeps [of errors a b cs s]
    await_callbacks_keeps [of waiting a b cs s]
    await_callbacks_keeps [of currentElement a b cs s]
    await_callbacks_keeps [of "\<lambda>s. tagName (nodes s x)" a b cs s]
    await_callbacks_keeps [of "\<lambda>s. target (nodes s x)" a b cs s]
    await_callbacks_keeps [of "\<lambda>s. wrap_promise (nodes s x)" a b cs s]
    await_callbacks_keeps [of "\<lambda>s. srcCode (nodes s x)" a b cs s]
    await_callbacks_keeps [of "\<lambda>s. executed (nodes s x)" a b cs s]
  by simp_all

lemma call_callbacks_fields [simp]:
  "next_elem (snd (call_callbacks cs a b s)) = next_elem s"
  "id_n (snd (call_callbacks cs a b s)) = id_n s"
  "alreadyRegistered (snd (call_callbacks cs a b s)) = alreadyRegistered s"
  "errors (snd (call_callbacks cs a b s)) = errors s"
  "waiting (snd (call_callbacks cs a b s)) = waiting s"
  "currentElement (snd (call_callbacks cs a b s)) = currentElement s"
  "tagName (nodes (snd (call_callbacks cs a b s)) x) = tagName (nodes s x)"
  "target (nodes (snd (call_callbacks cs a b s)) x) = target (nodes s x)"
  "wrap_promise (nodes (snd (call_callbacks cs a b s)) x) = wrap_promise (nodes s x)"
  "srcCode (nodes (snd (call_callbacks cs a b s)) x) = srcCode (nodes s x)"
  "executed (nodes (snd (call_callbacks cs a b s)) x) = executed (nodes s x)"
  using call_callbacks_keeps [of next_elem a b cs s]
    call_callbacks_keeps [of id_n a b cs s]
    call_callbacks_keeps [of alreadyRegistered a b cs s]
    call_callbacks_keeps [of errors a b cs s]
    call_callbacks_keeps [of waiting a b cs s]
    call_callbacks_keeps [of currentElement a b cs s]
    call_callbacks_keeps [of "\<lambda>s. tagName (nodes s x)" a b cs s]
    call_callbacks_keeps [of "\<lambda>s. target (nodes s x)" a b cs s]
    call_callbacks_keeps [of "\<lambda>s. wrap_promise (nodes s x)" a b cs s]
    call_callbacks_keeps [of "\<lambda>s. srcCode (nodes s x)" a b cs s]
    call_callbacks_keeps [of "\<lambda>s. executed (nodes s x)" a b cs s]
  by simp_all

lemma await_callbacks_trace [simp]:
  "trace (snd (await_callbacks cs a b s)) = trace s @ chain_events cs"
  by (induction cs arbitrary: s) (auto simp: Let_def split: completion.splits)

lemma call_callbacks_trace [simp]:
  "trace (snd (call_callbacks cs a b s)) = trace s @ call_events cs"
  by (induction cs arbitrary: s) (auto simp: Let_def split: completion.splits)

lemma await_callbacks_result [simp]: "fst (await_callbacks cs a b s) = chain_result cs"
  by (induction cs arbitrary: s) (auto simp: Let_def split: completion.splits)

lemma call_callbacks_result [simp]: "fst (call_callbacks cs a b s) = chain_result cs"
  by (induction cs arbitrary: s) (auto simp: Let_def split: completion.splits)

lemma chain_result_Normal: "chain_result cs = Normal \<longleftrightarrow> (\<forall>c\<in>set cs. cb_result c = Normal)"
  by (induction cs) (auto split: completion.splits)

lemma chain_events_no_stderr: "filter is_stderr (chain_events cs) = []"
  by (induction cs) (auto split: completion.splits)

lemma chain_events_no_run: "filter is_run (chain_events cs) = []"
  by (induction cs) (auto split: completion.splits)

lemma chain_events_plugin: "x \<in> set (chain_events cs) \<Longrightarrow> is_plugin_event x"
  by (induction cs) (auto split: completion.splits)

lemma call_events_plugin: "x \<in> set (call_events cs) \<Longrightarrow> is_plugin_event x"
  by (induction cs) (auto split: completion.splits)

lemma fetchSource_events: "x \<in> set (fst (fetchSource env n io t)) \<Longrightarrow> is_source_event x"
  by (auto simp: fetchSource_def inline_source_def Let_def split: option.splits sum.splits if_splits)

lemma registerModule_eq:
  "registerModule w s = emits (register_events w s) (s\<lparr>alreadyRegistered := True\<rparr>)"
  by (simp add: registerModule_def register_events_def emit_def emits_def)

lemma after_plugins_trace:
  "trace (after_plugins env w e s)
     = trace s @ register_events w s @ chain_events (main env ''onReady'')"
  by (simp add: after_plugins_def registerModule_eq)

lemma after_plugins_fields [simp]:
  "next_elem (after_plugins env w e s) = next_elem s"
  "id_n (after_plugins env w e s) = id_n s"
  "alreadyRegistered (after_plugins env w e s)"
  "errors (after_plugins env w e s) = errors s"
  "waiting (after_plugins env w e s) = waiting s"
  "currentElement (after_plugins env w e s) = currentElement s"
  "tagName (nodes (after_plugins env w e s) x) = tagName (nodes s x)"
  "target (nodes (after_plugins env w e s) x) = target (nodes s x)"
  "wrap_promise (nodes (after_plugins env w e s) x) = wrap_promise (nodes s x)"
  "srcCode (nodes (after_plugins env w e s) x) = srcCode (nodes s x)"
  "executed (nodes (after_plugins env w e s) x) = executed (nodes s x)"
  by (simp_all add: after_plugins_def registerModule_eq)

lemma after_plugins_isScript [simp]:
  "isScript (nodes (after_plugins env w e s) x) = isScript (nodes s x)"
  by (simp add: isScript_def)

lemma onReady_eq:
  "onReady env w e s =
     (case chain_result (main env ''onReady'') of
        Throw x \<Rightarrow> (Throw x, after_plugins env w e s)
      | Normal \<Rightarrow>
          (case errors s e of
             Some message \<Rightarrow>
               (Normal,
                emit (Stderr w (conflict_message env message (nodes (after_plugins env w e s) e)))
                  ((after_plugins env w e s)\<lparr>errors := (errors s)(e := None)\<rparr>))
           | None \<Rightarrow>
               if isScript (nodes s e) then ready_script env w e (after_plugins env w e s)
               else (Normal, resolve_wrap env w e (after_plugins env w e s))))"
proof -
  have p: "await_callbacks (main env ''onReady'') w e (registerModule w s)
             = (chain_result (main env ''onReady''), after_plugins env w e s)"
    by (simp add: after_plugins_def prod_eq_iff)
  have e: "errors (after_plugins env w e s) = errors s"
    by simp
  have i: "isScript (nodes (after_plugins env w e s) e) = isScript (nodes s e)"
    by simp
  show ?thesis
    unfolding onReady_def p
    by (simp add: e i Let_def split: completion.splits option.splits)
qed

lemma run_script_eq:
  "run_script env w e a s =
     (if \<not> a \<and> run env w (snd (fetchSource env (nodes s e) w True)) \<noteq> Normal
      then Throw (case run env w (snd (fetchSource env (nodes s e) w True)) of Throw x \<Rightarrow> x)
      else Normal,
      emits (Dispatch e (flavor env) ''ready'' # fst (fetchSource env (nodes s e) w True)
              @ run_events env e w a (snd (fetchSource env (nodes s e) w True))) s)"
  by (auto simp: run_script_def run_events_def emit_def emits_def dispatchDone_def Let_def
      split: prod.splits completion.splits settlement.splits)

lemma resolve_show_trace [simp]: "trace (snd (resolve_show env e s)) = trace s"
  by (simp add: resolve_show_def createElement_def after_def Let_def split: prod.splits)

lemma ensure_id_trace [simp]: "trace (ensure_id env sh s) = trace s"
  by (simp add: ensure_id_def getID_def set_id_def Let_def split: prod.splits)

lemma define_target_trace [simp]: "trace (snd (define_target e sh s)) = trace s"
  by (simp add: define_target_def split: option.splits)

lemma resolve_show_keeps_target:
  "target (nodes s e) = None \<Longrightarrow> target (nodes (snd (resolve_show env e s)) e) = None"
  by (auto simp: resolve_show_def createElement_def after_def Let_def new_node_def
      split: if_splits prod.splits)

lemma ensure_id_target [simp]: "target (nodes (ensure_id env sh s) e) = target (nodes s e)"
  by (simp add: ensure_id_def getID_def set_id_def Let_def)

lemma ready_script_cases:
  "(\<exists>x. ready_script env w e s = (Throw x, snd (resolve_show env e s))
         \<and> (fst (resolve_show env e s) = LookupThrows x
            \<or> fst (resolve_show env e s) = NotFound \<and> x = ''TypeError''))
   \<or> (\<exists>sh old. fst (resolve_show env e s) = Found sh
         \<and> target (nodes (snd (resolve_show env e s)) e) = Some old \<and> old \<noteq> sh
         \<and> ready_script env w e s
             = (Throw ''TypeError'', ensure_id env sh (snd (resolve_show env e s))))
   \<or> (\<exists>sh. fst (resolve_show env e s) = Found sh
         \<and> (target (nodes (snd (resolve_show env e s)) e) = None
            \<or> target (nodes (snd (resolve_show env e s)) e) = Some sh)
         \<and> ready_script env w e s
             = run_script env w e (\<not> isSync env (nodes s e))
                 (snd (define_target e sh (ensure_id env sh (snd (resolve_show env e s))))))"
proof -
  obtain found s1 where r: "resolve_show env e s = (found, s1)"
    by (cases "resolve_show env e s")
  show ?thesis
  proof (cases found)
    case (LookupThrows x)
    then show ?thesis by (simp add: ready_script_def r)
  next
    case NotFound
    then show ?thesis by (simp add: ready_script_def r)
  next
    case (Found sh)
    show ?thesis
      by (cases "target (nodes s1 e)")
         (auto simp: ready_script_def r Found define_target_def Let_def)
  qed
qed

lemma ready_script_trace:
  "trace (snd (ready_script env w e s)) = trace s
   \<or> (\<exists>n. trace (snd (ready_script env w e s)) = trace s @
          Dispatch e (flavor env) ''ready'' # fst (fetchSource env n w True)
            @ run_events env e w (\<not> isSync env (nodes s e)) (snd (fetchSource env n w True)))"
  using ready_script_cases [of env w e s]
  by (auto simp: run_script_eq)

lemma connected_resume_trace:
  "trace (connected_resume env w e a s) = trace s @
     fst (fetchSource env (nodes s e) w (childElementCount (nodes s e) = 0))
     @ Dispatch e (flavor env) ''ready''
     # (if a then RunAsync e w (snd (fetchSource env (nodes s e) w (childElementCount (nodes s e) = 0)))
              # (if runAsync env w (snd (fetchSource env (nodes s e) w (childElementCount (nodes s e) = 0))) = Fulfilled
                 then [Dispatch e (flavor env) ''done''] else [])
        else Run e w (snd (fetchSource env (nodes s e) w (childElementCount (nodes s e) = 0)))
              # (if run env w (snd (fetchSource env (nodes s e) w (childElementCount (nodes s e) = 0))) = Normal
                 then [Dispatch e (flavor env) ''done''] else []))"
  by (auto simp: connected_resume_def emit_def emits_def dispatchDone_def Let_def
      split: prod.splits completion.splits settlement.splits)

lemma no_dispatch_plugin: "Dispatch a b c \<notin> set (chain_events cs)"
  using chain_events_plugin [of "Dispatch a b c" cs] by auto

lemma no_run_plugin: "x \<in> set (chain_events cs) \<Longrightarrow> \<not> is_run_of e x"
  using chain_events_plugin [of x cs] by (cases x) auto

lemma no_dispatch_source: "Dispatch a b c \<notin> set (fst (fetchSource env n io t))"
  using fetchSource_events [of "Dispatch a b c" env n io t] by auto

lemma no_run_source: "x \<in> set (fst (fetchSource env n io t)) \<Longrightarrow> \<not> is_run_of e x"
  using fetchSource_events [of x env n io t] by (cases x) auto

lemma run_events_done:
  "Dispatch e (flavor env) ''done'' \<in> set (run_events env e w a code)
     \<longleftrightarrow> (\<exists>x\<in>set (run_events env e w a code). is_run_of e x \<and> completed env x)"
  by (auto simp: run_events_def)

lemma run_events_no_ready: "Dispatch e T ''ready'' \<notin> set (run_events env e w a code)"
  by (auto simp: run_events_def)

lemma connected_resume_new:
  "new_events s (connected_resume env w e a s) =
     fst (fetchSource env (nodes s e) w (childElementCount (nodes s e) = 0))
     @ ready_ev env e
     # resume_events env e w a (snd (fetchSource env (nodes s e) w (childElementCount (nodes s e) = 0)))"
  by (rule new_events_append) (simp add: connected_resume_trace resume_events_def ready_ev_def)

lemma resume_events_done:
  "done_ev env e \<in> set (resume_events env e w a code)
     \<longleftrightarrow> (\<exists>x\<in>set (resume_events env e w a code). is_run_of e x \<and> completed env x)"
  by (auto simp: resume_events_def done_ev_def)

subsection \<open>Callbacks, units and their events\<close>


lemma belongs_not_register: "belongs_to e x \<Longrightarrow> \<not> is_register x"
  by (cases x) auto


lemma source_belongs: "x \<in> set (fst (fetchSource env n io t)) \<Longrightarrow> belongs_to e x"
  using fetchSource_events [of x env n io t] by (cases x) auto

lemma runs_append [simp]: "runs e (xs @ ys) = runs e xs + runs e ys"
  by (simp add: runs_def)

lemma runs_Nil [simp]: "runs e [] = 0"
  by (simp add: runs_def)

lemma runs_Cons: "runs e (x # xs) = (if is_run_of e x then 1 else 0) + runs e xs"
  by (simp add: runs_def)

lemma readies_append [simp]: "readies env e (xs @ ys) = readies env e xs + readies env e ys"
  by (simp add: readies_def)

lemma readies_Nil [simp]: "readies env e [] = 0"
  by (simp add: readies_def)

lemma readies_Cons:
  "readies env e (x # xs) = (if x = ready_ev env e then 1 else 0) + readies env e xs"
  by (simp add: readies_def)

lemma runs_0_iff: "runs e T = 0 \<longleftrightarrow> (\<forall>x\<in>set T. \<not> is_run_of e x)"
  by (simp add: runs_def filter_empty_conv)

lemma readies_0_iff: "readies env e T = 0 \<longleftrightarrow> ready_ev env e \<notin> set T"
  by (auto simp: readies_def filter_empty_conv)

lemma lifecycle_Nil [simp]: "lifecycle env e []"
  by (simp add: lifecycle_def)

lemma lifecycle_append:
  "lifecycle env e A \<Longrightarrow> lifecycle env e B \<Longrightarrow> lifecycle env e (A @ B)"
  by (auto simp: lifecycle_def)

lemma quiet_other:
  assumes "list_all is_quiet P"
  shows "runs e P = 0" "readies env e P = 0" "ready_ev env e \<notin> set P" "done_ev env e \<notin> set P"
    "lifecycle env e P" "filter is_stderr P = []" "filter is_run P = []"
proof -
  have q: "\<And>x. x \<in> set P \<Longrightarrow> is_quiet x"
    using assms by (simp add: list_all_iff)
  have a: "\<And>x. is_quiet x \<Longrightarrow> \<not> is_run_of e x \<and> x \<noteq> ready_ev env e \<and> x \<noteq> done_ev env e
      \<and> \<not> is_stderr x \<and> \<not> is_run x"
    by (case_tac x) (auto simp: ready_ev_def done_ev_def)
  show "runs e P = 0" using q a by (auto simp: runs_0_iff)
  show r: "ready_ev env e \<notin> set P" using q a by blast
  then show "readies env e P = 0" by (simp add: readies_0_iff)
  show "done_ev env e \<notin> set P" using q a by blast
  show "lifecycle env e P" using q a by (auto simp: lifecycle_def)
  show "filter is_stderr P = []" using q a by (auto simp: filter_empty_conv)
  show "filter is_run P = []" using q a by (auto simp: filter_empty_conv)
qed

lemma belongs_other:
  assumes "list_all (belongs_to e) T" and "e0 \<noteq> e"
  shows "runs e0 T = 0" "readies env e0 T = 0" "ready_ev env e0 \<notin> set T"
    "done_ev env e0 \<notin> set T" "lifecycle env e0 T"
proof -
  have q: "\<And>x. x \<in> set T \<Longrightarrow> belongs_to e x"
    using assms(1) by (simp add: list_all_iff)
  have a: "\<And>x. belongs_to e x \<Longrightarrow> \<not> is_run_of e0 x \<and> x \<noteq> ready_ev env e0 \<and> x \<noteq> done_ev env e0"
    using assms(2) by (case_tac x) (auto simp: ready_ev_def done_ev_def)
  show "runs e0 T = 0" using q a by (auto simp: runs_0_iff)
  show r: "ready_ev env e0 \<notin> set T" using q a by blast
  then show "readies env e0 T = 0" by (simp add: readies_0_iff)
  show "done_ev env e0 \<notin> set T" using q a by blast
  show "lifecycle env e0 T" using q a by (auto simp: lifecycle_def)
qed

lemma register_events_quiet: "list_all is_quiet (register_events w s)"
  by (simp add: register_events_def)

lemma chain_events_quiet: "list_all is_quiet (chain_events cs)"
  by (induction cs) (auto split: completion.splits)

lemma call_events_quiet: "list_all is_quiet (call_events cs)"
  by (induction cs) (auto split: completion.splits)

lemma source_counts:
  "readies env e0 (fst (fetchSource env' n io t)) = 0" "runs e0 (fst (fetchSource env' n io t)) = 0"
  "done_ev env e0 \<notin> set (fst (fetchSource env' n io t))"
  "ready_ev env e0 \<notin> set (fst (fetchSource env' n io t))"
  using no_dispatch_source [of e0 "flavor env" _ env' n io t] no_run_source [of _ env' n io t e0]
  by (auto simp: readies_0_iff runs_0_iff ready_ev_def done_ev_def)

text \<open>The events of one pass of a script through lines 236 to 243.\<close>

lemma script_pass:
  assumes "T = Dispatch e (flavor env) ''ready'' # fst (fetchSource env n w True)
            @ run_events env e w a (snd (fetchSource env n w True))"
  shows "list_all (belongs_to e) T" "readies env e0 T = runs e0 T" "lifecycle env e T"
proof -
  show "list_all (belongs_to e) T"
    unfolding assms by (auto simp: list_all_iff run_events_def dest: source_belongs)
  show "readies env e0 T = runs e0 T"
    unfolding assms
    by (auto simp: readies_Cons runs_Cons source_counts run_events_def ready_ev_def)
  show "lifecycle env e T"
    unfolding assms lifecycle_def done_ev_def ready_ev_def
    using run_events_done [of e env w a "snd (fetchSource env n w True)"]
    by (auto simp: no_dispatch_source dest: no_run_source)
qed

text \<open>The events of one pass of a custom element through lines 346 to 360.\<close>

lemma element_pass:
  assumes "T = fst (fetchSource env n w t) @ ready_ev env e
            # resume_events env e w a (snd (fetchSource env n w t))"
  shows "list_all (belongs_to e) T" "readies env e0 T = (if e = e0 then 1 else 0)"
    "runs e0 T = (if e = e0 then 1 else 0)" "lifecycle env e T" "ready_ev env e \<in> set T"
proof -
  show "list_all (belongs_to e) T"
    unfolding assms by (auto simp: list_all_iff resume_events_def ready_ev_def dest: source_belongs)
  show "readies env e0 T = (if e = e0 then 1 else 0)"
    unfolding assms
    by (auto simp: readies_Cons source_counts resume_events_def ready_ev_def)
  show "runs e0 T = (if e = e0 then 1 else 0)"
    unfolding assms
    by (auto simp: runs_Cons source_counts resume_events_def ready_ev_def)
  show "lifecycle env e T"
    unfolding assms lifecycle_def
    using resume_events_done [of env e w a "snd (fetchSource env n w t)"]
    by (auto simp: no_dispatch_source ready_ev_def done_ev_def dest: no_run_source)
  show "ready_ev env e \<in> set T"
    unfolding assms by simp
qed

lemma connected_resume_belongs:
  "list_all (belongs_to e) (new_events s (connected_resume env w e a s))"
  using element_pass(1) [OF connected_resume_new] .

lemma connected_resume_lifecycle:
  "lifecycle env e (new_events s (connected_resume env w e a s))"
  using element_pass(4) [OF connected_resume_new] .

lemma connected_resume_prefix:
  "trace (connected_resume env w e a s) = trace s @ new_events s (connected_resume env w e a s)"
  by (simp add: connected_resume_trace new_events_def)

lemma connected_resume_runs:
  "runs e0 (new_events s (connected_resume env w e a s)) = (if e = e0 then 1 else 0)"
  using element_pass(3) [OF connected_resume_new] .

lemma connected_resume_readies:
  "readies env e0 (new_events s (connected_resume env w e a s)) = (if e = e0 then 1 else 0)"
  using element_pass(2) [OF connected_resume_new] .

lemma connected_resume_fields [simp]:
  "executed (nodes (connected_resume env w e a s) x) = executed (nodes s x)"
  "wrap_promise (nodes (connected_resume env w e a s) x) = wrap_promise (nodes s x)"
  "tagName (nodes (connected_resume env w e a s) x) = tagName (nodes s x)"
  "next_elem (connected_resume env w e a s) = next_elem s"
  "waiting (connected_resume env w e a s) = waiting s"
  "alreadyRegistered (connected_resume env w e a s) = alreadyRegistered s"
  "errors (connected_resume env w e a s) = errors s"
  by (simp_all add: connected_resume_def dispatchDone_def Let_def
      split: prod.splits settlement.splits completion.splits)

lemma resume_waiting_keeps:
  assumes "\<And>a s. P (connected_resume env w e a s) = P s"
  shows "P (resume_waiting env w e q s) = P s"
proof (induction q arbitrary: s)
  case Nil
  show ?case by simp
next
  case (Cons p q)
  obtain e' a where p: "p = (e', a)" by (cases p)
  show ?case by (simp add: p Cons.IH assms)
qed

lemma resume_waiting_fields [simp]:
  "executed (nodes (resume_waiting env w e q s) x) = executed (nodes s x)"
  "wrap_promise (nodes (resume_waiting env w e q s) x) = wrap_promise (nodes s x)"
  "tagName (nodes (resume_waiting env w e q s) x) = tagName (nodes s x)"
  "next_elem (resume_waiting env w e q s) = next_elem s"
  "waiting (resume_waiting env w e q s) = waiting s"
  "alreadyRegistered (resume_waiting env w e q s) = alreadyRegistered s"
  "errors (resume_waiting env w e q s) = errors s"
  using resume_waiting_keeps [of "\<lambda>s. executed (nodes s x)" env w e q s]
    resume_waiting_keeps [of "\<lambda>s. wrap_promise (nodes s x)" env w e q s]
    resume_waiting_keeps [of "\<lambda>s. tagName (nodes s x)" env w e q s]
    resume_waiting_keeps [of next_elem env w e q s]
    resume_waiting_keeps [of waiting env w e q s]
    resume_waiting_keeps [of alreadyRegistered env w e q s]
    resume_waiting_keeps [of errors env w e q s]
  by simp_all

lemma resume_waiting_trace:
  "trace (resume_waiting env w e q s) = trace s @ new_events s (resume_waiting env w e q s)
   \<and> list_all (belongs_to e) (new_events s (resume_waiting env w e q s))
   \<and> runs e0 (new_events s (resume_waiting env w e q s))
       = (if e = e0 then length (filter (\<lambda>p. fst p = e) q) else 0)
   \<and> readies env e0 (new_events s (resume_waiting env w e q s))
       = runs e0 (new_events s (resume_waiting env w e q s))
   \<and> lifecycle env e (new_events s (resume_waiting env w e q s))"
proof (induction q arbitrary: s)
  case Nil
  show ?case by simp
next
  case (Cons p q)
  obtain e' a where p: "p = (e', a)" by (cases p)
  show ?case
  proof (cases "e' = e")
    case False
    then show ?thesis using Cons.IH [of s] by (simp add: p)
  next
    case True
    define s1 where "s1 = connected_resume env w e a s"
    define A where "A = new_events s s1"
    define B where "B = new_events s1 (resume_waiting env w e q s1)"
    have ih: "trace (resume_waiting env w e q s1) = trace s1 @ B"
      and ihb: "list_all (belongs_to e) B"
      and ihr: "runs e0 B = (if e = e0 then length (filter (\<lambda>p. fst p = e) q) else 0)"
      and ihd: "readies env e0 B = runs e0 B"
      and ihl: "lifecycle env e B"
      using Cons.IH [of s1] by (simp_all add: B_def)
    have a1: "trace s1 = trace s @ A"
      unfolding s1_def A_def by (rule connected_resume_prefix)
    have a2: "list_all (belongs_to e) A" "lifecycle env e A"
      "runs e0 A = (if e = e0 then 1 else 0)" "readies env e0 A = (if e = e0 then 1 else 0)"
      unfolding s1_def A_def
      by (simp_all add: connected_resume_belongs connected_resume_lifecycle
          connected_resume_runs connected_resume_readies)
    have t: "trace (resume_waiting env w e q s1) = trace s @ A @ B"
      by (simp add: ih a1)
    have n: "new_events s (resume_waiting env w e q s1) = A @ B"
      by (rule new_events_append) (rule t)
    have r: "resume_waiting env w e (p # q) s = resume_waiting env w e q s1"
      by (simp add: p True s1_def)
    show ?thesis
      unfolding r n
      using t ihb ihr ihd ihl a2 by (simp add: p True lifecycle_append)
  qed
qed

lemma resolve_wrap_fields [simp]:
  "executed (nodes (resolve_wrap env w e s) x) = executed (nodes s x)"
  "tagName (nodes (resolve_wrap env w e s) x) = tagName (nodes s x)"
  "next_elem (resolve_wrap env w e s) = next_elem s"
  "alreadyRegistered (resolve_wrap env w e s) = alreadyRegistered s"
  "errors (resolve_wrap env w e s) = errors s"
  by (simp_all add: resolve_wrap_def Let_def split: option.splits)

lemma resolve_wrap_wrap:
  "wrap_promise (nodes (resolve_wrap env w e s) x) =
     (if x = e \<and> wrap_promise (nodes s e) = None then Some w else wrap_promise (nodes s x))"
  by (auto simp: resolve_wrap_def Let_def split: option.splits)

lemma resolve_wrap_waiting:
  "waiting (resolve_wrap env w e s) =
     (if wrap_promise (nodes s e) = None then filter (\<lambda>p. fst p \<noteq> e) (waiting s) else waiting s)"
  by (auto simp: resolve_wrap_def Let_def split: option.splits)

lemma resolve_wrap_trace:
  "trace (resolve_wrap env w e s) = trace s @ new_events s (resolve_wrap env w e s)
   \<and> list_all (belongs_to e) (new_events s (resolve_wrap env w e s))
   \<and> runs e0 (new_events s (resolve_wrap env w e s))
       = (if e = e0 \<and> wrap_promise (nodes s e) = None then suspended e s else 0)
   \<and> readies env e0 (new_events s (resolve_wrap env w e s))
       = runs e0 (new_events s (resolve_wrap env w e s))
   \<and> lifecycle env e (new_events s (resolve_wrap env w e s))"
proof (cases "wrap_promise (nodes s e)")
  case (Some w0)
  have n: "new_events s (resolve_wrap env w e s) = [Debug]"
    by (rule new_events_append) (simp add: resolve_wrap_def Some)
  show ?thesis
    unfolding n
    by (simp add: resolve_wrap_def Some runs_def readies_def ready_ev_def lifecycle_def done_ev_def)
next
  case None
  define s3 where "s3 = (emit Debug (s\<lparr>nodes := (nodes s)(e := (nodes s e)\<lparr>wrap_promise := Some w\<rparr>)\<rparr>))
      \<lparr>waiting := filter (\<lambda>p. fst p \<noteq> e) (waiting s)\<rparr>"
  define N where "N = new_events s3 (resume_waiting env w e (waiting s) s3)"
  have r: "resolve_wrap env w e s = resume_waiting env w e (waiting s) s3"
    using None by (simp add: resolve_wrap_def Let_def s3_def)
  have a: "trace s3 = trace s @ [Debug]"
    by (simp add: s3_def)
  have R1: "trace (resume_waiting env w e (waiting s) s3) = trace s3 @ N"
    and R2: "list_all (belongs_to e) N"
    and R3: "runs e0 N = (if e = e0 then length (filter (\<lambda>p. fst p = e) (waiting s)) else 0)"
    and R4: "readies env e0 N = runs e0 N"
    and R5: "lifecycle env e N"
    using resume_waiting_trace [of env w e "waiting s" s3 e0] by (simp_all add: N_def)
  have t: "trace (resolve_wrap env w e s) = trace s @ Debug # N"
    by (simp add: r R1 a)
  have n: "new_events s (resolve_wrap env w e s) = Debug # N"
    by (rule new_events_append) (rule t)
  have l: "lifecycle env e ([Debug] @ N)"
    by (rule lifecycle_append [OF _ R5]) (simp add: lifecycle_def done_ev_def)
  show ?thesis
    unfolding n using t R2 R3 R4 l None
    by (simp add: suspended_def runs_Cons readies_Cons ready_ev_def)
qed

lemma ready_script_new:
  "trace (snd (ready_script env w e s)) = trace s @ new_events s (snd (ready_script env w e s))
   \<and> list_all (belongs_to e) (new_events s (snd (ready_script env w e s)))
   \<and> readies env e0 (new_events s (snd (ready_script env w e s)))
       = runs e0 (new_events s (snd (ready_script env w e s)))
   \<and> lifecycle env e (new_events s (snd (ready_script env w e s)))"
proof -
  consider (stop) "trace (snd (ready_script env w e s)) = trace s @ []"
    | (pass) n where "trace (snd (ready_script env w e s)) = trace s @
          Dispatch e (flavor env) ''ready'' # fst (fetchSource env n w True)
            @ run_events env e w (\<not> isSync env (nodes s e)) (snd (fetchSource env n w True))"
    using ready_script_trace [of env w e s] by auto
  then show ?thesis
  proof cases
    case stop
    show ?thesis
      unfolding new_events_append [OF stop] using stop by simp
  next
    case pass
    show ?thesis
      unfolding new_events_append [OF pass]
      using pass script_pass(1) [OF refl, of e env n w "\<not> isSync env (nodes s e)"]
        script_pass(2) [OF refl, of env e0 e n w "\<not> isSync env (nodes s e)"]
        script_pass(3) [OF refl, of env e n w "\<not> isSync env (nodes s e)"]
      by simp
  qed
qed

lemma resolve_show_fields:
  "alreadyRegistered (snd (resolve_show env e s)) = alreadyRegistered s"
  "waiting (snd (resolve_show env e s)) = waiting s"
  "errors (snd (resolve_show env e s)) = errors s"
  "id_n (snd (resolve_show env e s)) = id_n s"
  "next_elem s \<le> next_elem (snd (resolve_show env e s))"
  "x < next_elem s \<Longrightarrow> nodes (snd (resolve_show env e s)) x = nodes s x"
  "wrap_promise (nodes s x) = None \<Longrightarrow> wrap_promise (nodes (snd (resolve_show env e s)) x) = None"
  by (auto simp: resolve_show_def createElement_def after_def new_node_def Let_def
      split: prod.splits)

lemma ensure_id_fields [simp]:
  "alreadyRegistered (ensure_id env sh s) = alreadyRegistered s"
  "waiting (ensure_id env sh s) = waiting s"
  "errors (ensure_id env sh s) = errors s"
  "next_elem (ensure_id env sh s) = next_elem s"
  "head (ensure_id env sh s) = head s" "body (ensure_id env sh s) = body s"
  "executed (nodes (ensure_id env sh s) x) = executed (nodes s x)"
  "wrap_promise (nodes (ensure_id env sh s) x) = wrap_promise (nodes s x)"
  "tagName (nodes (ensure_id env sh s) x) = tagName (nodes s x)"
  by (simp_all add: ensure_id_def getID_def set_id_def Let_def)

lemma define_target_fields [simp]:
  "alreadyRegistered (snd (define_target e sh s)) = alreadyRegistered s"
  "waiting (snd (define_target e sh s)) = waiting s"
  "errors (snd (define_target e sh s)) = errors s"
  "next_elem (snd (define_target e sh s)) = next_elem s"
  "id_n (snd (define_target e sh s)) = id_n s"
  "head (snd (define_target e sh s)) = head s" "body (snd (define_target e sh s)) = body s"
  "executed (nodes (snd (define_target e sh s)) x) = executed (nodes s x)"
  "wrap_promise (nodes (snd (define_target e sh s)) x) = wrap_promise (nodes s x)"
  "tagName (nodes (snd (define_target e sh s)) x) = tagName (nodes s x)"
  "attrs (nodes (snd (define_target e sh s)) x) = attrs (nodes s x)"
  by (simp_all add: define_target_def split: option.splits)

lemma run_script_fields [simp]:
  "nodes (snd (run_script env w e a s)) = nodes s"
  "alreadyRegistered (snd (run_script env w e a s)) = alreadyRegistered s"
  "waiting (snd (run_script env w e a s)) = waiting s"
  "errors (snd (run_script env w e a s)) = errors s"
  "next_elem (snd (run_script env w e a s)) = next_elem s"
  "id_n (snd (run_script env w e a s)) = id_n s"
  "head (snd (run_script env w e a s)) = head s" "body (snd (run_script env w e a s)) = body s"
  by (simp_all add: run_script_eq)

lemma ready_script_fields:
  "alreadyRegistered (snd (ready_script env w e s)) = alreadyRegistered s"
  "waiting (snd (ready_script env w e s)) = waiting s"
  "errors (snd (ready_script env w e s)) = errors s"
  "next_elem s \<le> next_elem (snd (ready_script env w e s))"
  "x < next_elem s \<Longrightarrow> executed (nodes (snd (ready_script env w e s)) x) = executed (nodes s x)"
  "x < next_elem s \<Longrightarrow> wrap_promise (nodes (snd (ready_script env w e s)) x) = wrap_promise (nodes s x)"
  "x < next_elem s \<Longrightarrow> tagName (nodes (snd (ready_script env w e s)) x) = tagName (nodes s x)"
  "wrap_promise (nodes s x) = None \<Longrightarrow> wrap_promise (nodes (snd (ready_script env w e s)) x) = None"
  using ready_script_cases [of env w e s]
  by (auto simp: resolve_show_fields)

lemma onReady_new_general:
  "\<exists>T. trace (snd (onReady env w e s)) =
         trace s @ register_events w s @ chain_events (main env ''onReady'') @ T
       \<and> list_all (belongs_to e) T \<and> lifecycle env e T
       \<and> (\<forall>e0. readies env e0 T = runs e0 T)"
proof -
  define s1 where "s1 = after_plugins env w e s"
  have t1: "trace s1 = trace s @ register_events w s @ chain_events (main env ''onReady'')"
    by (simp add: s1_def after_plugins_trace)
  have eq: "onReady env w e s =
      (case chain_result (main env ''onReady'') of
           Throw x \<Rightarrow> (Throw x, s1)
         | Normal \<Rightarrow>
             (case errors s e of
                Some message \<Rightarrow>
                  (Normal, emit (Stderr w (conflict_message env message (nodes s1 e)))
                             (s1\<lparr>errors := (errors s)(e := None)\<rparr>))
              | None \<Rightarrow>
                  if isScript (nodes s e) then ready_script env w e s1
                  else (Normal, resolve_wrap env w e s1)))"
    unfolding s1_def by (rule onReady_eq)
  show ?thesis
  proof (cases "chain_result (main env ''onReady'')")
    case (Throw x)
    show ?thesis
      by (rule exI [of _ "[]"]) (simp add: eq Throw t1)
  next
    case Normal
    show ?thesis
    proof (cases "errors s e")
      case (Some message)
      show ?thesis
        by (rule exI [of _ "[Stderr w (conflict_message env message (nodes s1 e))]"])
           (simp add: eq Normal Some t1 lifecycle_def done_ev_def readies_def runs_def ready_ev_def)
    next
      case None
      show ?thesis
      proof (cases "isScript (nodes s e)")
        case True
        show ?thesis
          by (rule exI [of _ "new_events s1 (snd (ready_script env w e s1))"])
             (use ready_script_new [of env w e s1] in \<open>simp add: eq Normal None True t1\<close>)
      next
        case False
        show ?thesis
          by (rule exI [of _ "new_events s1 (resolve_wrap env w e s1)"])
             (use resolve_wrap_trace [of env w e s1] in \<open>simp add: eq Normal None False t1\<close>)
      qed
    qed
  qed
qed

lemma connectedCallback_new:
  "trace (connectedCallback env e s) = trace s @ new_events s (connectedCallback env e s)
   \<and> list_all (belongs_to e) (new_events s (connectedCallback env e s))
   \<and> lifecycle env e (new_events s (connectedCallback env e s))"
proof (cases "executed (nodes s e) \<or> wrap_promise (nodes s e) = None")
  case True
  then show ?thesis
    by (auto simp: connectedCallback_def new_events_def Let_def split: option.splits)
next
  case False
  then obtain w where w: "wrap_promise (nodes s e) = Some w" and x: "\<not> executed (nodes s e)"
    by auto
  define s1 where "s1 = s\<lparr>nodes := (nodes s)(e := (nodes s e)\<lparr>executed := True\<rparr>)\<rparr>"
  have c: "connectedCallback env e s = connected_resume env w e (\<not> isSync env (nodes s1 e)) s1"
    using w x by (simp add: connectedCallback_def Let_def s1_def)
  have t: "trace s1 = trace s" by (simp add: s1_def)
  have n: "new_events s (connected_resume env w e (\<not> isSync env (nodes s1 e)) s1)
           = new_events s1 (connected_resume env w e (\<not> isSync env (nodes s1 e)) s1)"
    by (simp add: new_events_def t)
  show ?thesis
    unfolding c n
    using connected_resume_prefix [of env w e "\<not> isSync env (nodes s1 e)" s1]
      connected_resume_belongs [of e s1 env w "\<not> isSync env (nodes s1 e)"]
      connected_resume_lifecycle [of env e s1 w "\<not> isSync env (nodes s1 e)"]
    by (simp add: t)
qed

lemma connectedCallback_fields [simp]:
  "alreadyRegistered (connectedCallback env e s) = alreadyRegistered s"
  "errors (connectedCallback env e s) = errors s"
  "next_elem (connectedCallback env e s) = next_elem s"
  "wrap_promise (nodes (connectedCallback env e s) x) = wrap_promise (nodes s x)"
  "tagName (nodes (connectedCallback env e s) x) = tagName (nodes s x)"
  by (simp_all add: connectedCallback_def Let_def split: option.splits)

text \<open>What the hooks around a run and the worker checkpoint add to the trace.\<close>

lemma bootstrap_trace [simp]:
  "trace (snd (bootstrapNodeAndPlugins query w e name s)) = trace s @ hook_events query name"
  by (simp add: bootstrapNodeAndPlugins_def hook_events_def)

lemma bootstrap_fields [simp]:
  "next_elem (snd (bootstrapNodeAndPlugins query w e name s)) = next_elem s"
  "alreadyRegistered (snd (bootstrapNodeAndPlugins query w e name s)) = alreadyRegistered s"
  "errors (snd (bootstrapNodeAndPlugins query w e name s)) = errors s"
  "waiting (snd (bootstrapNodeAndPlugins query w e name s)) = waiting s"
  "tagName (nodes (snd (bootstrapNodeAndPlugins query w e name s)) x) = tagName (nodes s x)"
  "wrap_promise (nodes (snd (bootstrapNodeAndPlugins query w e name s)) x) = wrap_promise (nodes s x)"
  "executed (nodes (snd (bootstrapNodeAndPlugins query w e name s)) x) = executed (nodes s x)"
  by (simp_all add: bootstrapNodeAndPlugins_def)

lemma hook_events_quiet: "list_all is_quiet (hook_events query name)"
  by (simp add: hook_events_def chain_events_quiet call_events_quiet)

text \<open>
  The events of one callback of the page: registration and plugin calls first, then the
  events of one unit.
\<close>

lemma step_events:
  "\<exists>P T e. trace (step env a s) = trace s @ P @ T \<and> list_all is_quiet P
     \<and> list_all (belongs_to e) T \<and> lifecycle env e T
     \<and> (T = [] \<or> a = Attach e \<or> (\<exists>w. a = Ready w e))"
proof (cases a)
  case (Attach e)
  show ?thesis
    using connectedCallback_new [of env e s]
    by (intro exI [of _ "[]"] exI [of _ "new_events s (connectedCallback env e s)"] exI [of _ e])
       (simp add: Attach)
next
  case (Ready w e)
  obtain T where T: "trace (snd (onReady env w e s)) =
         trace s @ register_events w s @ chain_events (main env ''onReady'') @ T"
    and b: "list_all (belongs_to e) T" "lifecycle env e T"
    using onReady_new_general [of env w e s] by blast
  show ?thesis
    by (intro exI [of _ "register_events w s @ chain_events (main env ''onReady'')"]
          exI [of _ T] exI [of _ e])
       (simp add: Ready T b register_events_quiet chain_events_quiet)
next
  case (OnError m e)
  show ?thesis
    by (intro exI [of _ "[]"]) (simp add: OnError onerror_def)
next
  case (Worker u x)
  show ?thesis
    by (intro exI [of _ "AssignSync x # call_events (main env ''onWorker'')"] exI [of _ "[]"])
       (simp add: Worker onWorker_def call_events_quiet)
next
  case (BeforeRun w e)
  show ?thesis
    by (intro exI [of _ "hook_events (main env) ''onBeforeRun''"] exI [of _ "[]"])
       (simp add: BeforeRun onBeforeRun_def hook_events_quiet)
next
  case (BeforeRunAsync w e)
  show ?thesis
    by (intro exI [of _ "hook_events (main env) ''onBeforeRunAsync''"] exI [of _ "[]"])
       (simp add: BeforeRunAsync onBeforeRunAsync_def hook_events_quiet)
next
  case (AfterRun w e)
  show ?thesis
    by (intro exI [of _ "hook_events (main env) ''onAfterRun''"] exI [of _ "[]"])
       (simp add: AfterRun onAfterRun_def hook_events_quiet)
next
  case (AfterRunAsync w e)
  show ?thesis
    by (intro exI [of _ "hook_events (main env) ''onAfterRunAsync''"] exI [of _ "[]"])
       (simp add: AfterRunAsync onAfterRunAsync_def hook_events_quiet)
qed

subsection \<open>Registration of the module\<close>

lemma registrations_append [simp]:
  "registrations (xs @ ys) = registrations xs + registrations ys"
  by (simp add: registrations_def)

lemma registrations_Nil [simp]: "registrations [] = 0"
  by (simp add: registrations_def)

lemma registrations_belongs: "list_all (belongs_to e) T \<Longrightarrow> registrations T = 0"
  by (auto simp: registrations_def filter_empty_conv list_all_iff dest: belongs_not_register)

lemma registrations_plugin: "\<forall>x\<in>set T. is_plugin_event x \<Longrightarrow> registrations T = 0"
proof -
  assume a: "\<forall>x\<in>set T. is_plugin_event x"
  have "\<And>x. is_plugin_event x \<Longrightarrow> \<not> is_register x"
    by (case_tac x) auto
  with a show ?thesis
    by (auto simp: registrations_def filter_empty_conv)
qed

lemma registrations_hook: "registrations (hook_events query name) = 0"
  by (rule registrations_plugin)
     (auto simp: hook_events_def dest: chain_events_plugin call_events_plugin)

lemma registrations_register_events:
  "registrations (register_events w s) = (if alreadyRegistered s then 0 else 1)"
  by (simp add: register_events_def registrations_def)

lemma onReady_registered: "alreadyRegistered (snd (onReady env w e s))"
  by (simp add: onReady_eq ready_script_fields split: completion.splits option.splits)

lemma onReady_registrations:
  "registrations (trace (snd (onReady env w e s)))
     = registrations (trace s) + (if alreadyRegistered s then 0 else 1)"
proof -
  obtain T where T: "trace (snd (onReady env w e s)) =
         trace s @ register_events w s @ chain_events (main env ''onReady'') @ T"
    and b: "list_all (belongs_to e) T"
    using onReady_new_general [of env w e s] by blast
  have c: "registrations (chain_events (main env ''onReady'')) = 0"
    by (rule registrations_plugin) (simp add: chain_events_plugin)
  show ?thesis
    by (simp add: T registrations_belongs [OF b] c registrations_register_events)
qed

lemma step_registrations:
  "registrations (trace (step env a s))
     = registrations (trace s)
       + (case a of Ready w e \<Rightarrow> (if alreadyRegistered s then 0 else 1) | _ \<Rightarrow> 0)
   \<and> (alreadyRegistered s \<longrightarrow> alreadyRegistered (step env a s))"
proof (cases a)
  case (Attach e)
  have b: "list_all (belongs_to e) (new_events s (connectedCallback env e s))"
    and t: "trace (connectedCallback env e s) = trace s @ new_events s (connectedCallback env e s)"
    using connectedCallback_new [of env e s] by blast+
  have "registrations (trace (connectedCallback env e s))
          = registrations (trace s @ new_events s (connectedCallback env e s))"
    using t by (rule arg_cong)
  then have "registrations (trace (connectedCallback env e s)) = registrations (trace s)"
    by (simp add: registrations_belongs [OF b])
  then show ?thesis
    by (simp add: Attach)
next
  case (Ready w e)
  show ?thesis
    by (simp add: Ready onReady_registrations onReady_registered)
next
  case (OnError m e)
  show ?thesis
    by (simp add: OnError onerror_def)
next
  case (Worker u x)
  have "registrations (call_events (main env ''onWorker'')) = 0"
    by (rule registrations_plugin) (simp add: call_events_plugin)
  then show ?thesis
    by (simp add: Worker onWorker_def registrations_def)
next
  case (BeforeRun w e)
  show ?thesis by (simp add: BeforeRun onBeforeRun_def registrations_hook)
next
  case (BeforeRunAsync w e)
  show ?thesis by (simp add: BeforeRunAsync onBeforeRunAsync_def registrations_hook)
next
  case (AfterRun w e)
  show ?thesis by (simp add: AfterRun onAfterRun_def registrations_hook)
next
  case (AfterRunAsync w e)
  show ?thesis by (simp add: AfterRunAsync onAfterRunAsync_def registrations_hook)
qed

lemma exec_registrations:
  "registrations (trace (exec env acts s)) \<le> registrations (trace s) + (if alreadyRegistered s then 0 else 1)
   \<and> registrations (trace s) \<le> registrations (trace (exec env acts s))
   \<and> (alreadyRegistered s \<longrightarrow> alreadyRegistered (exec env acts s))"
proof (induction acts arbitrary: s)
  case Nil
  show ?case by simp
next
  case (Cons a acts)
  show ?case
  proof (cases "\<exists>w e. a = Ready w e")
    case True
    then obtain w e where a: "a = Ready w e" by blast
    have r: "alreadyRegistered (step env a s)"
      by (simp add: a onReady_registered)
    show ?thesis
      using Cons.IH [of "step env a s"] step_registrations [of env a s] r
      by (auto simp: a split: if_splits)
  next
    case False
    then have c: "(case a of Ready w e \<Rightarrow> (if alreadyRegistered s then 0 else 1) | _ \<Rightarrow> 0) = (0::nat)"
      by (cases a) auto
    show ?thesis
      using Cons.IH [of "step env a s"] step_registrations [of env a s]
      unfolding c by (auto split: if_splits)
  qed
qed

lemma filter_register_belongs: "list_all (belongs_to e) T \<Longrightarrow> filter is_register T = []"
  by (auto simp: filter_empty_conv list_all_iff dest: belongs_not_register)

lemma filter_register_chain: "filter is_register (chain_events cs) = []"
proof -
  have "\<And>x. is_plugin_event x \<Longrightarrow> \<not> is_register x"
    by (case_tac x) auto
  then show ?thesis
    by (auto simp: filter_empty_conv dest: chain_events_plugin)
qed

lemma onReady_register_events:
  "filter is_register (new_events s (snd (onReady env w e s))) = register_events w s"
proof -
  obtain T where T: "trace (snd (onReady env w e s)) =
         trace s @ register_events w s @ chain_events (main env ''onReady'') @ T"
    and b: "list_all (belongs_to e) T"
    using onReady_new_general [of env w e s] by blast
  show ?thesis
    unfolding new_events_append [OF T]
    by (simp add: filter_register_belongs [OF b] filter_register_chain)
       (simp add: register_events_def)
qed

text \<open>
  C10. From a flavor that has registered nothing yet, whatever the page does (any
  sequence of attachments, ready checkpoints of any units, errors, workers and hooks
  around runs), the module \<^verbatim>\<open>_pyscript\<close> is registered at most once. Every ready
  checkpoint leaves the flag \<^verbatim>\<open>alreadyRegistered\<close> set; once it is set, no later callback
  registers anything, and a ready checkpoint adds no registration. The checkpoint that
  finds the flag unset registers the module once, with its five members.
\<close>

theorem module_registered_at_most_once:
  "(\<not> alreadyRegistered s0 \<and> registrations (trace s0) = 0 \<longrightarrow>
      registrations (trace (exec env acts s0)) \<le> 1)
   \<and> alreadyRegistered (snd (onReady env w e s))
   \<and> (alreadyRegistered s \<longrightarrow>
        registrations (trace (exec env acts s)) = registrations (trace s)
        \<and> alreadyRegistered (exec env acts s)
        \<and> filter is_register (new_events s (snd (onReady env w e s))) = [])
   \<and> (\<not> alreadyRegistered s \<longrightarrow>
        filter is_register (new_events s (snd (onReady env w e s)))
          = [RegisterJsModule w ''_pyscript''
               [''PyWorker'', ''fs'', ''interpreter'', ''js_import'', ''target'']])"
  using exec_registrations [of env acts s0] exec_registrations [of env acts s]
    onReady_registered [of env w e s]
  by (auto simp: onReady_register_events register_events_def)

theorem module_registered_at_most_once_witness:
  "\<not> alreadyRegistered page \<and> registrations (trace page) = 0
   \<and> registrations (trace (exec page_env [Ready 0 7, Attach 2, Ready 1 4, Ready 2 2] page)) \<le> 1
   \<and> filter is_register (new_events page (snd (onReady page_env 0 7 page)))
        = [RegisterJsModule 0 ''_pyscript''
             [''PyWorker'', ''fs'', ''interpreter'', ''js_import'', ''target'']]
   \<and> alreadyRegistered (snd (onReady page_env 0 7 page))
   \<and> filter is_register (new_events (snd (onReady page_env 0 7 page))
        (snd (onReady page_env 1 4 (snd (onReady page_env 0 7 page))))) = []"
proof -
  have p: "\<not> alreadyRegistered page" "registrations (trace page) = 0"
    by (simp_all add: page_def registrations_def)
  show ?thesis
    using module_registered_at_most_once
      [of page page_env "[Ready 0 7, Attach 2, Ready 1 4, Ready 2 2]" 0 7 page]
      module_registered_at_most_once
      [of page page_env "[]" 1 4 "snd (onReady page_env 0 7 page)"] p
    by simp
qed
subsection \<open>Evaluation on the small page\<close>

lemmas page_defs = page_def page_env_def missing_src_def py_script_def out_div_def
  head_script_def empty_target_def out_target_def new_node_def rejecting_plugin_def
  failing_runs_def endless_runs_def larger_page_def retargeting_plugin_def retarget_def

lemmas ready_defs = onReady_def registerModule_def ready_script_def run_script_def
  resolve_show_def createElement_def after_def truthy_def ensure_id_def getID_def set_id_def
  define_target_def node_id_def fetchSource_def inline_source_def dispatchDone_def
  conflict_message_def isScript_def resolve_wrap_def connected_resume_def onerror_def
  plugin_edit_def after_plugins_def emit_def emits_def Let_def

subsection \<open>The custom element runs once\<close>

lemma connectedCallback_unit_inv:
  assumes "unit_inv env e0 s"
  shows "unit_inv env e0 (connectedCallback env e s)
         \<and> (executed (nodes s e0) \<longrightarrow> executed (nodes (connectedCallback env e s) e0))"
proof (cases "executed (nodes s e)")
  case True
  then show ?thesis using assms by (simp add: connectedCallback_def)
next
  case False
  define s1 where "s1 = s\<lparr>nodes := (nodes s)(e := (nodes s e)\<lparr>executed := True\<rparr>)\<rparr>"
  define a where "a = (\<not> isSync env (nodes s1 e))"
  show ?thesis
  proof (cases "wrap_promise (nodes s e)")
    case None
    have c: "connectedCallback env e s = s1\<lparr>waiting := waiting s1 @ [(e, a)]\<rparr>"
      using False None by (simp add: connectedCallback_def Let_def s1_def a_def)
    show ?thesis
      unfolding c using assms False None
      by (auto simp: unit_inv_def s1_def suspended_def isScript_def)
  next
    case (Some w)
    have c: "connectedCallback env e s = connected_resume env w e a s1"
      using False Some by (simp add: connectedCallback_def Let_def s1_def a_def)
    have t: "trace (connected_resume env w e a s1)
               = trace s @ new_events s1 (connected_resume env w e a s1)"
      using connected_resume_prefix [of env w e a s1] by (simp add: s1_def)
    have r: "runs e0 (trace (connected_resume env w e a s1))
               = runs e0 (trace s) + (if e = e0 then 1 else 0)"
      and d: "readies env e0 (trace (connected_resume env w e a s1))
               = readies env e0 (trace s) + (if e = e0 then 1 else 0)"
      unfolding t by (simp_all add: connected_resume_runs connected_resume_readies)
    have f: "suspended e0 (connected_resume env w e a s1) = suspended e0 s"
      by (simp add: suspended_def s1_def)
    show ?thesis
      unfolding c using assms False Some r d f
      by (auto simp: unit_inv_def s1_def isScript_def)
  qed
qed

lemma filter_other:
  "filter (\<lambda>x. fst x \<noteq> e \<and> fst x = e0) q
     = (if e = e0 then [] else filter (\<lambda>p. fst p = e0) q)"
  by (auto simp: filter_empty_conv intro: filter_cong)

lemma resolve_wrap_suspended:
  "suspended e0 (resolve_wrap env w e s) =
     (if wrap_promise (nodes s e) = None \<and> e = e0 then 0 else suspended e0 s)"
  by (auto simp: suspended_def resolve_wrap_waiting filter_other)

lemma resolve_wrap_unit_inv:
  assumes "unit_inv env e0 s"
  shows "unit_inv env e0 (resolve_wrap env w e s)
         \<and> (executed (nodes s e0) \<longrightarrow> executed (nodes (resolve_wrap env w e s) e0))"
proof -
  define N where "N = new_events s (resolve_wrap env w e s)"
  have t: "trace (resolve_wrap env w e s) = trace s @ N"
    and r: "runs e0 N = (if e = e0 \<and> wrap_promise (nodes s e) = None then suspended e s else 0)"
    and d: "readies env e0 N = runs e0 N"
    using resolve_wrap_trace [of env w e s e0] by (simp_all add: N_def)
  show ?thesis
    using assms r d
    by (auto simp: unit_inv_def t resolve_wrap_suspended resolve_wrap_wrap isScript_def)
qed

lemma ready_script_unit_inv:
  assumes "unit_inv env e0 s" and "isScript (nodes s e)"
  shows "unit_inv env e0 (snd (ready_script env w e s))
         \<and> (executed (nodes s e0) \<longrightarrow> executed (nodes (snd (ready_script env w e s)) e0))"
proof -
  have ne: "e0 \<noteq> e" and lt: "e0 < next_elem s"
    using assms by (auto simp: unit_inv_def)
  define N where "N = new_events s (snd (ready_script env w e s))"
  have t: "trace (snd (ready_script env w e s)) = trace s @ N"
    and b: "list_all (belongs_to e) N"
    using ready_script_new [of env w e s e0] by (simp_all add: N_def)
  have r: "runs e0 N = 0" and d: "readies env e0 N = 0"
    using belongs_other [OF b ne] by simp_all
  have f: "executed (nodes (snd (ready_script env w e s)) e0) = executed (nodes s e0)"
    "wrap_promise (nodes (snd (ready_script env w e s)) e0) = wrap_promise (nodes s e0)"
    "tagName (nodes (snd (ready_script env w e s)) e0) = tagName (nodes s e0)"
    "waiting (snd (ready_script env w e s)) = waiting s"
    "next_elem s \<le> next_elem (snd (ready_script env w e s))"
    by (simp_all add: ready_script_fields lt)
  show ?thesis
    using assms(1) r d f lt
    by (auto simp: unit_inv_def t suspended_def isScript_def)
qed

text \<open>A callback that leaves the unit alone keeps what holds of it.\<close>

lemma unit_inv_quiet:
  assumes "unit_inv env e0 s" and "trace s' = trace s @ P" and "list_all is_quiet P"
    and "tagName (nodes s' e0) = tagName (nodes s e0)" and "next_elem s' = next_elem s"
    and "executed (nodes s' e0) = executed (nodes s e0)"
    and "wrap_promise (nodes s' e0) = wrap_promise (nodes s e0)" and "waiting s' = waiting s"
  shows "unit_inv env e0 s'"
  using assms(1)
  by (simp add: unit_inv_def suspended_def isScript_def assms(2,4,5,6,7,8)
      quiet_other(1) [OF assms(3)] quiet_other(2) [OF assms(3)])

lemma after_plugins_unit_inv:
  assumes "unit_inv env e0 s"
  shows "unit_inv env e0 (after_plugins env w e s)"
proof (rule unit_inv_quiet [OF assms])
  show "trace (after_plugins env w e s)
      = trace s @ (register_events w s @ chain_events (main env ''onReady''))"
    by (simp add: after_plugins_trace)
  show "list_all is_quiet (register_events w s @ chain_events (main env ''onReady''))"
    by (simp add: register_events_quiet chain_events_quiet)
qed simp_all

lemma onReady_unit_inv:
  assumes "unit_inv env e0 s"
  shows "unit_inv env e0 (snd (onReady env w e s))
         \<and> (executed (nodes s e0) \<longrightarrow> executed (nodes (snd (onReady env w e s)) e0))"
proof -
  define s1 where "s1 = after_plugins env w e s"
  have i1: "unit_inv env e0 s1"
    unfolding s1_def by (rule after_plugins_unit_inv [OF assms])
  have x1: "executed (nodes s1 e0) = executed (nodes s e0)"
    by (simp add: s1_def)
  have eq: "onReady env w e s =
      (case chain_result (main env ''onReady'') of
           Throw x \<Rightarrow> (Throw x, s1)
         | Normal \<Rightarrow>
             (case errors s e of
                Some message \<Rightarrow>
                  (Normal, emit (Stderr w (conflict_message env message (nodes s1 e)))
                             (s1\<lparr>errors := (errors s)(e := None)\<rparr>))
              | None \<Rightarrow>
                  if isScript (nodes s e) then ready_script env w e s1
                  else (Normal, resolve_wrap env w e s1)))"
    unfolding s1_def by (rule onReady_eq)
  show ?thesis
  proof (cases "chain_result (main env ''onReady'')")
    case (Throw x)
    show ?thesis using i1 x1 by (simp add: eq Throw)
  next
    case Normal
    show ?thesis
    proof (cases "errors s e")
      case (Some message)
      have "unit_inv env e0 (emit (Stderr w (conflict_message env message (nodes s1 e)))
                             (s1\<lparr>errors := (errors s)(e := None)\<rparr>))"
        using i1 by (simp add: unit_inv_def suspended_def runs_def readies_def ready_ev_def)
      then show ?thesis using x1 by (simp add: eq Normal Some)
    next
      case None
      show ?thesis
      proof (cases "isScript (nodes s e)")
        case True
        then have "isScript (nodes s1 e)" by (simp add: s1_def)
        from ready_script_unit_inv [OF i1 this] show ?thesis
          using x1 by (simp add: eq Normal None True)
      next
        case False
        from resolve_wrap_unit_inv [OF i1] show ?thesis
          using x1 by (simp add: eq Normal None False)
      qed
    qed
  qed
qed

lemma hook_unit_inv:
  assumes "unit_inv env e0 s"
  shows "unit_inv env e0 (snd (bootstrapNodeAndPlugins query w e name (s\<lparr>currentElement := c\<rparr>)))"
proof (rule unit_inv_quiet [OF assms])
  show "trace (snd (bootstrapNodeAndPlugins query w e name (s\<lparr>currentElement := c\<rparr>)))
      = trace s @ hook_events query name"
    by simp
  show "list_all is_quiet (hook_events query name)"
    by (rule hook_events_quiet)
qed simp_all

lemma step_unit_inv:
  assumes "unit_inv env e0 s"
  shows "unit_inv env e0 (step env a s)
         \<and> (executed (nodes s e0) \<longrightarrow> executed (nodes (step env a s) e0))"
proof (cases a)
  case (Attach e)
  show ?thesis using connectedCallback_unit_inv [OF assms] by (simp add: Attach)
next
  case (Ready w e)
  show ?thesis using onReady_unit_inv [OF assms] by (simp add: Ready)
next
  case (OnError m e)
  show ?thesis using assms by (simp add: OnError onerror_def unit_inv_def suspended_def)
next
  case (Worker u x)
  have "unit_inv env e0 (snd (onWorker env u x s))"
  proof (rule unit_inv_quiet [OF assms])
    show "trace (snd (onWorker env u x s))
        = trace s @ (AssignSync x # call_events (main env ''onWorker''))"
      by (simp add: onWorker_def)
    show "list_all is_quiet (AssignSync x # call_events (main env ''onWorker''))"
      by (simp add: call_events_quiet)
  qed (simp_all add: onWorker_def)
  then show ?thesis by (simp add: Worker onWorker_def)
next
  case (BeforeRun w e)
  show ?thesis
    using hook_unit_inv [OF assms, of "main env" w e "''onBeforeRun''" "Some e"]
    by (simp add: BeforeRun onBeforeRun_def)
next
  case (BeforeRunAsync w e)
  show ?thesis
    using hook_unit_inv [OF assms, of "main env" w e "''onBeforeRunAsync''" "Some e"]
    by (simp add: BeforeRunAsync onBeforeRunAsync_def)
next
  case (AfterRun w e)
  show ?thesis
    using hook_unit_inv [OF assms, of "main env" w e "''onAfterRun''" "currentElement s"]
    by (simp add: AfterRun onAfterRun_def)
next
  case (AfterRunAsync w e)
  show ?thesis
    using hook_unit_inv [OF assms, of "main env" w e "''onAfterRunAsync''" "currentElement s"]
    by (simp add: AfterRunAsync onAfterRunAsync_def)
qed

lemma exec_unit_inv:
  assumes "unit_inv env e0 s"
  shows "unit_inv env e0 (exec env acts s)
         \<and> (executed (nodes s e0) \<longrightarrow> executed (nodes (exec env acts s) e0))"
  using assms
proof (induction acts arbitrary: s)
  case Nil
  then show ?case by simp
next
  case (Cons a acts)
  from step_unit_inv [OF Cons.prems] Cons.IH [of "step env a s"]
  show ?case by simp
qed

lemma exec_append: "exec env (xs @ ys) s = exec env ys (exec env xs s)"
  by (induction xs arbitrary: s) auto

lemma connectedCallback_sets_executed: "executed (nodes (connectedCallback env e s) e)"
  by (simp add: connectedCallback_def Let_def split: option.splits)

lemma fresh_unit_inv:
  assumes "\<not> isScript (nodes s e)" and "e < next_elem s" and "\<not> executed (nodes s e)"
    and "wrap_promise (nodes s e) = None" and "suspended e s = 0"
    and "runs e (trace s) = 0" and "readies env e (trace s) = 0"
  shows "unit_inv env e s"
  using assms by (simp add: unit_inv_def)

lemma unit_inv_bounds: "unit_inv env e s \<Longrightarrow> runs e (trace s) \<le> 1 \<and> readies env e (trace s) \<le> 1"
  by (auto simp: unit_inv_def split: if_splits)

text \<open>
  C4. For a custom element, from its construction (\<^verbatim>\<open>executed\<close> unset, wrap pending,
  nothing run) and whatever the page does afterwards (any number of attachments of this
  element and of others, ready checkpoints, errors, workers, hooks around runs, in any
  order), its body is passed to \<^verbatim>\<open>run\<close> or \<^verbatim>\<open>runAsync\<close> at most once and its source is resolved at most once
  (each resolution is followed by one \<^verbatim>\<open>ready\<close>). The attachment callback sets \<^verbatim>\<open>executed\<close>,
  the flag stays set whatever follows, and an attachment that finds it set changes
  nothing.
\<close>

theorem custom_element_runs_at_most_once:
  "(\<not> isScript (nodes s0 e) \<and> e < next_elem s0 \<and> \<not> executed (nodes s0 e)
      \<and> wrap_promise (nodes s0 e) = None \<and> suspended e s0 = 0
      \<and> runs e (trace s0) = 0 \<and> readies env e (trace s0) = 0 \<longrightarrow>
      runs e (trace (exec env acts s0)) \<le> 1
      \<and> readies env e (trace (exec env acts s0)) \<le> 1
      \<and> (\<forall>pre post. acts = pre @ Attach e # post \<longrightarrow> executed (nodes (exec env acts s0) e)))
   \<and> (executed (nodes s e) \<longrightarrow> connectedCallback env e s = s)
   \<and> executed (nodes (connectedCallback env e s) e)"
proof (intro conjI impI allI)
  assume a: "\<not> isScript (nodes s0 e) \<and> e < next_elem s0 \<and> \<not> executed (nodes s0 e)
      \<and> wrap_promise (nodes s0 e) = None \<and> suspended e s0 = 0
      \<and> runs e (trace s0) = 0 \<and> readies env e (trace s0) = 0"
  then have i: "unit_inv env e s0"
    by (simp add: fresh_unit_inv)
  have j: "unit_inv env e (exec env acts s0)"
    using exec_unit_inv [OF i] by simp
  show "runs e (trace (exec env acts s0)) \<le> 1" "readies env e (trace (exec env acts s0)) \<le> 1"
    using unit_inv_bounds [OF j] by simp_all
  fix pre post
  assume s: "acts = pre @ Attach e # post"
  define s1 where "s1 = exec env pre s0"
  have i1: "unit_inv env e s1"
    unfolding s1_def using exec_unit_inv [OF i] by simp
  have i2: "unit_inv env e (step env (Attach e) s1)"
    using step_unit_inv [OF i1, of "Attach e"] by blast
  have x: "executed (nodes (step env (Attach e) s1) e)"
    by (simp add: connectedCallback_sets_executed)
  have "exec env acts s0 = exec env post (step env (Attach e) s1)"
    by (simp add: s exec_append s1_def)
  then show "executed (nodes (exec env acts s0) e)"
    using exec_unit_inv [OF i2] x by simp
next
  assume "executed (nodes s e)"
  then show "connectedCallback env e s = s"
    by (simp add: connectedCallback_def)
next
  show "executed (nodes (connectedCallback env e s) e)"
    by (rule connectedCallback_sets_executed)
qed

lemma page_attached_thrice:
  "trace (exec page_env [Attach 2, Attach 2, Ready 0 2, Attach 2] page) =
     [RegisterJsModule 0 ''_pyscript'' [''PyWorker'', ''fs'', ''interpreter'', ''js_import'', ''target''],
      Debug, Dispatch 2 ''py'' ''ready'', RunAsync 2 0 ''print(3)'', Dispatch 2 ''py'' ''done'']"
  by (simp add: ready_defs page_defs connectedCallback_def)

theorem custom_element_runs_at_most_once_witness:
  "\<not> isScript (nodes page 2) \<and> 2 < next_elem page \<and> \<not> executed (nodes page 2)
   \<and> wrap_promise (nodes page 2) = None \<and> suspended 2 page = 0
   \<and> runs 2 (trace page) = 0 \<and> readies page_env 2 (trace page) = 0
   \<and> runs 2 (trace (exec page_env [Attach 2, Attach 2, Ready 0 2, Attach 2] page)) \<le> 1
   \<and> trace (exec page_env [Attach 2, Attach 2, Ready 0 2, Attach 2] page) =
     [RegisterJsModule 0 ''_pyscript'' [''PyWorker'', ''fs'', ''interpreter'', ''js_import'', ''target''],
      Debug, Dispatch 2 ''py'' ''ready'', RunAsync 2 0 ''print(3)'', Dispatch 2 ''py'' ''done'']
   \<and> executed (nodes (exec page_env [Attach 2, Attach 2, Ready 0 2, Attach 2] page) 2)"
proof -
  have h: "\<not> isScript (nodes page 2) \<and> 2 < next_elem page \<and> \<not> executed (nodes page 2)
   \<and> wrap_promise (nodes page 2) = None \<and> suspended 2 page = 0
   \<and> runs 2 (trace page) = 0 \<and> readies page_env 2 (trace page) = 0"
    by (simp add: isScript_def suspended_def runs_def readies_def page_defs)
  have l: "[Attach 2, Attach 2, Ready 0 2, Attach 2] = [] @ Attach 2 # [Attach 2, Ready 0 2, Attach 2]"
    by simp
  show ?thesis
    using custom_element_runs_at_most_once
      [of page 2 page_env "[Attach 2, Attach 2, Ready 0 2, Attach 2]"] h l page_attached_thrice
    by blast
qed

subsection \<open>A unit that has not started\<close>

lemma never_started_quiet:
  assumes "never_started env e s" and "trace s' = trace s @ P" and "list_all is_quiet P"
    and "wrap_promise (nodes s' e) = wrap_promise (nodes s e)"
  shows "never_started env e s'"
  using assms(1)
  by (simp add: never_started_def assms(2,4) quiet_other(1) [OF assms(3)]
      quiet_other(3) [OF assms(3)] quiet_other(4) [OF assms(3)])

lemma never_started_append:
  assumes "never_started env e s" and "trace s' = trace s @ N" and "runs e N = 0"
    and "ready_ev env e \<notin> set N" and "done_ev env e \<notin> set N"
    and "wrap_promise (nodes s' e) = None"
  shows "never_started env e s'"
  using assms(1) by (simp add: never_started_def assms(2,3,4,5,6))

lemma never_started_other:
  assumes "never_started env e s" and "trace s' = trace s @ P @ T" and "list_all is_quiet P"
    and "list_all (belongs_to x) T" and "e \<noteq> x" and "wrap_promise (nodes s' e) = None"
  shows "never_started env e s'"
  using assms(1)
  by (simp add: never_started_def assms(2,6) quiet_other(1) [OF assms(3)]
      quiet_other(3) [OF assms(3)] quiet_other(4) [OF assms(3)]
      belongs_other(1) [OF assms(4,5)] belongs_other(3) [OF assms(4,5)]
      belongs_other(4) [OF assms(4,5)])

lemma onReady_keeps_wrap_none:
  assumes "wrap_promise (nodes s e) = None" and "x \<noteq> e \<or> errors s e \<noteq> None"
  shows "wrap_promise (nodes (snd (onReady env w x s)) e) = None"
proof -
  have a: "wrap_promise (nodes (after_plugins env w x s) e) = None"
    using assms(1) by simp
  show ?thesis
    using assms(2) a
    by (auto simp: onReady_eq ready_script_fields(8) resolve_wrap_wrap
        split: completion.splits option.splits)
qed

text \<open>
  A ready checkpoint that finds an error recorded for its unit starts nothing, whether
  the plugin callbacks complete or not.
\<close>

lemma onReady_error_never_started:
  assumes "never_started env e s" and "errors s e = Some message"
  shows "never_started env e (snd (onReady env w e s))"
proof (cases "chain_result (main env ''onReady'')")
  case (Throw x)
  show ?thesis
  proof (rule never_started_quiet [OF assms(1)])
    show "trace (snd (onReady env w e s))
        = trace s @ (register_events w s @ chain_events (main env ''onReady''))"
      by (simp add: onReady_eq Throw after_plugins_trace)
    show "list_all is_quiet (register_events w s @ chain_events (main env ''onReady''))"
      by (simp add: register_events_quiet chain_events_quiet)
    show "wrap_promise (nodes (snd (onReady env w e s)) e) = wrap_promise (nodes s e)"
      by (simp add: onReady_eq Throw)
  qed
next
  case Normal
  have t: "trace (snd (onReady env w e s))
        = trace s @ (register_events w s @ chain_events (main env ''onReady''))
          @ [Stderr w (conflict_message env message (nodes (after_plugins env w e s) e))]"
    by (simp add: onReady_eq Normal assms(2) after_plugins_trace)
  have q: "list_all is_quiet (register_events w s @ chain_events (main env ''onReady''))"
    by (simp add: register_events_quiet chain_events_quiet)
  have w: "wrap_promise (nodes (snd (onReady env w e s)) e) = None"
    using assms(1) by (simp add: onReady_eq Normal assms(2) never_started_def)
  have r: "runs e ((register_events w s @ chain_events (main env ''onReady''))
          @ [Stderr w (conflict_message env message (nodes (after_plugins env w e s) e))]) = 0"
    using quiet_other(1) [OF q, of e] by (simp add: runs_def)
  have a: "ready_ev env e \<notin> set ((register_events w s @ chain_events (main env ''onReady''))
          @ [Stderr w (conflict_message env message (nodes (after_plugins env w e s) e))])"
    using quiet_other(3) [OF q, of env e] by (simp add: ready_ev_def)
  have d: "done_ev env e \<notin> set ((register_events w s @ chain_events (main env ''onReady''))
          @ [Stderr w (conflict_message env message (nodes (after_plugins env w e s) e))])"
    using quiet_other(4) [OF q, of env e] by (simp add: done_ev_def)
  show ?thesis
    by (rule never_started_append [OF assms(1) t r a d w])
qed

lemma step_never_started:
  assumes "never_started env e s" and "\<not> is_ready_of e a"
  shows "never_started env e (step env a s)"
proof (cases a)
  case (Attach x)
  show ?thesis
  proof (cases "x = e")
    case True
    have w: "wrap_promise (nodes s e) = None"
      using assms(1) by (simp add: never_started_def)
    have "trace (connectedCallback env e s) = trace s"
      by (simp add: connectedCallback_def Let_def w)
    then show ?thesis
      using assms(1) by (simp add: Attach True never_started_def)
  next
    case False
    have n: "trace (connectedCallback env x s) = trace s @ [] @ new_events s (connectedCallback env x s)"
      and b: "list_all (belongs_to x) (new_events s (connectedCallback env x s))"
      using connectedCallback_new [of env x s] by simp_all
    have ne: "e \<noteq> x" using False by auto
    have wn: "wrap_promise (nodes (connectedCallback env x s) e) = None"
      using assms(1) by (simp add: never_started_def)
    have "never_started env e (connectedCallback env x s)"
      by (rule never_started_other [OF assms(1) n _ b ne wn]) simp
    then show ?thesis by (simp add: Attach)
  qed
next
  case (Ready w x)
  have ne: "e \<noteq> x" using assms(2) by (auto simp: Ready)
  obtain T where T: "trace (snd (onReady env w x s)) =
         trace s @ (register_events w s @ chain_events (main env ''onReady'')) @ T"
    and b: "list_all (belongs_to x) T"
    using onReady_new_general [of env w x s] by auto
  have q: "list_all is_quiet (register_events w s @ chain_events (main env ''onReady''))"
    by (simp add: register_events_quiet chain_events_quiet)
  have wn: "wrap_promise (nodes (snd (onReady env w x s)) e) = None"
    using assms(1) ne by (intro onReady_keeps_wrap_none) (auto simp: never_started_def)
  show ?thesis
    using never_started_other [OF assms(1) T q b ne wn] by (simp add: Ready)
next
  case (OnError m x)
  show ?thesis using assms(1) by (simp add: OnError onerror_def never_started_def)
next
  case (Worker u x)
  have "never_started env e (snd (onWorker env u x s))"
  proof (rule never_started_quiet [OF assms(1)])
    show "trace (snd (onWorker env u x s))
        = trace s @ (AssignSync x # call_events (main env ''onWorker''))"
      by (simp add: onWorker_def)
    show "list_all is_quiet (AssignSync x # call_events (main env ''onWorker''))"
      by (simp add: call_events_quiet)
  qed (simp add: onWorker_def)
  then show ?thesis by (simp add: Worker)
next
  case (BeforeRun w x)
  have "never_started env e (snd (onBeforeRun env w x s))"
    by (rule never_started_quiet [OF assms(1) _ hook_events_quiet])
       (simp_all add: onBeforeRun_def)
  then show ?thesis by (simp add: BeforeRun)
next
  case (BeforeRunAsync w x)
  have "never_started env e (snd (onBeforeRunAsync env w x s))"
    by (rule never_started_quiet [OF assms(1) _ hook_events_quiet])
       (simp_all add: onBeforeRunAsync_def)
  then show ?thesis by (simp add: BeforeRunAsync)
next
  case (AfterRun w x)
  have "never_started env e (snd (onAfterRun env w x s))"
    by (rule never_started_quiet [OF assms(1) _ hook_events_quiet])
       (simp_all add: onAfterRun_def)
  then show ?thesis by (simp add: AfterRun)
next
  case (AfterRunAsync w x)
  have "never_started env e (snd (onAfterRunAsync env w x s))"
    by (rule never_started_quiet [OF assms(1) _ hook_events_quiet])
       (simp_all add: onAfterRunAsync_def)
  then show ?thesis by (simp add: AfterRunAsync)
qed

lemma exec_never_started:
  assumes "never_started env e s" and "list_all (\<lambda>a. \<not> is_ready_of e a) acts"
  shows "never_started env e (exec env acts s)"
  using assms
proof (induction acts arbitrary: s)
  case Nil
  then show ?case by simp
next
  case (Cons a acts)
  have "never_started env e (step env a s)"
    using Cons.prems by (intro step_never_started) simp_all
  then show ?case
    using Cons.IH [of "step env a s"] Cons.prems(2) by simp
qed

text \<open>
  A unit whose one ready checkpoint finds an error recorded for it never starts, whatever
  the page does afterwards.
\<close>

lemma preempted_never_started:
  assumes "never_started env e s" and "errors s e = Some message"
    and "list_all (\<lambda>a. \<not> is_ready_of e a) post"
  shows "never_started env e (exec env (Ready w e # post) s)"
  using exec_never_started [OF onReady_error_never_started [OF assms(1,2)] assms(3)]
  by simp

lemma onReady_error_report:
  assumes "errors s e = Some message" and "chain_result (main env ''onReady'') = Normal"
  shows "onReady env w e s =
     (Normal, emit (Stderr w (conflict_message env message (nodes (after_plugins env w e s) e)))
                ((after_plugins env w e s)\<lparr>errors := (errors s)(e := None)\<rparr>))"
    and "new_events s (snd (onReady env w e s)) =
       register_events w s @ chain_events (main env ''onReady'')
       @ [Stderr w (conflict_message env message (nodes (after_plugins env w e s) e))]"
proof -
  show a: "onReady env w e s =
     (Normal, emit (Stderr w (conflict_message env message (nodes (after_plugins env w e s) e)))
                ((after_plugins env w e s)\<lparr>errors := (errors s)(e := None)\<rparr>))"
    by (simp add: onReady_eq assms)
  show "new_events s (snd (onReady env w e s)) =
       register_events w s @ chain_events (main env ''onReady'')
       @ [Stderr w (conflict_message env message (nodes (after_plugins env w e s) e))]"
    by (rule new_events_append) (simp add: a after_plugins_trace)
qed

lemma onReady_error_no_run:
  assumes "errors s e = Some message"
  shows "filter is_run (new_events s (snd (onReady env w e s))) = []"
proof (cases "chain_result (main env ''onReady'')")
  case (Throw x)
  have "new_events s (snd (onReady env w e s))
      = register_events w s @ chain_events (main env ''onReady'')"
    by (rule new_events_append) (simp add: onReady_eq Throw after_plugins_trace)
  then show ?thesis
    by (simp add: chain_events_no_run register_events_def)
next
  case Normal
  show ?thesis
    by (simp add: onReady_error_report(2) [OF assms Normal] chain_events_no_run
        register_events_def)
qed

subsection \<open>A pending error at the ready checkpoint\<close>

text \<open>
  C2, as amended. Let an error be recorded for a unit when its ready checkpoint starts,
  the unit not having started before (nothing run or dispatched for it, the wrap of a
  custom element pending). Then neither \<^verbatim>\<open>run\<close> nor \<^verbatim>\<open>runAsync\<close> is ever called for the
  unit: not by this checkpoint, and not by anything the page does afterwards (attachments,
  ready checkpoints of other units, errors, workers, hooks around runs), whether the
  plugin callbacks complete or not. When every plugin callback of \<^verbatim>\<open>onReady\<close> completes,
  the checkpoint returns, the entry is deleted from the ledger and exactly one message
  goes to the \<^verbatim>\<open>io.stderr\<close> of the unit; it starts with the conflicting-code error code in
  parentheses and ends with the markup of the element as the callbacks left it.
\<close>

theorem pending_error_reported_and_not_run:
  "(never_started env e s \<and> errors s e = Some message
      \<and> list_all (\<lambda>a. \<not> is_ready_of e a) post \<longrightarrow>
      runs e (trace (exec env (Ready w e # post) s)) = 0)
   \<and> (errors s e = Some message \<longrightarrow>
        filter is_run (new_events s (snd (onReady env w e s))) = [])
   \<and> (errors s e = Some message \<and> (\<forall>c\<in>set (main env ''onReady''). cb_result c = Normal) \<longrightarrow>
        fst (onReady env w e s) = Normal
        \<and> errors (snd (onReady env w e s)) e = None
        \<and> filter is_stderr (new_events s (snd (onReady env w e s)))
            = [Stderr w (conflict_message env message (nodes (after_plugins env w e s) e))]
        \<and> prefix (''('' @ CONFLICTING_CODE env @ '') '')
            (conflict_message env message (nodes (after_plugins env w e s) e)))"
proof (intro conjI impI)
  assume "never_started env e s \<and> errors s e = Some message
      \<and> list_all (\<lambda>a. \<not> is_ready_of e a) post"
  then have "never_started env e (exec env (Ready w e # post) s)"
    by (intro preempted_never_started) simp_all
  then show "runs e (trace (exec env (Ready w e # post) s)) = 0"
    by (simp add: never_started_def)
next
  assume "errors s e = Some message"
  then show "filter is_run (new_events s (snd (onReady env w e s))) = []"
    by (rule onReady_error_no_run)
next
  assume a: "errors s e = Some message \<and> (\<forall>c\<in>set (main env ''onReady''). cb_result c = Normal)"
  then have m: "errors s e = Some message" and c: "chain_result (main env ''onReady'') = Normal"
    by (simp_all add: chain_result_Normal)
  show "fst (onReady env w e s) = Normal" "errors (snd (onReady env w e s)) e = None"
    by (simp_all add: onReady_error_report(1) [OF m c])
  show "filter is_stderr (new_events s (snd (onReady env w e s)))
            = [Stderr w (conflict_message env message (nodes (after_plugins env w e s) e))]"
    by (simp add: onReady_error_report(2) [OF m c] chain_events_no_stderr register_events_def)
  show "prefix (''('' @ CONFLICTING_CODE env @ '') '')
            (conflict_message env message (nodes (after_plugins env w e s) e))"
    by (simp add: conflict_message_def)
qed

theorem pending_error_reported_and_not_run_witness:
  "never_started page_env 7 (onerror ''Invalid content'' 7 page)
   \<and> errors (onerror ''Invalid content'' 7 page) 7 = Some ''Invalid content''
   \<and> main page_env ''onReady'' = []
   \<and> runs 7 (trace (exec page_env [Ready 0 7, Attach 2, Ready 1 4, AfterRunAsync 1 4]
        (onerror ''Invalid content'' 7 page))) = 0
   \<and> errors (snd (onReady page_env 0 7 (onerror ''Invalid content'' 7 page))) 7 = None
   \<and> filter is_stderr (new_events (onerror ''Invalid content'' 7 page)
        (snd (onReady page_env 0 7 (onerror ''Invalid content'' 7 page))))
      = [Stderr 0 ''(PY0409) Invalid content for <SCRIPT>'']
   \<and> filter is_run (new_events (onerror ''Invalid content'' 7 page)
        (snd (onReady page_env 0 7 (onerror ''Invalid content'' 7 page)))) = []"
proof -
  have n: "never_started page_env 7 (onerror ''Invalid content'' 7 page)"
    by (simp add: never_started_def onerror_def runs_def page_defs)
  have e: "errors (onerror ''Invalid content'' 7 page) 7 = Some ''Invalid content''"
    by (simp add: onerror_def)
  have p: "main page_env ''onReady'' = []"
    by (simp add: page_env_def)
  have l: "list_all (\<lambda>a. \<not> is_ready_of 7 a) [Attach 2, Ready 1 4, AfterRunAsync 1 4]"
    by simp
  have m: "conflict_message page_env ''Invalid content''
             (nodes (after_plugins page_env 0 7 (onerror ''Invalid content'' 7 page)) 7)
      = ''(PY0409) Invalid content for <SCRIPT>''"
    by (simp add: conflict_message_def) (simp add: onerror_def page_defs)
  show ?thesis
    using pending_error_reported_and_not_run
      [of page_env 7 "onerror ''Invalid content'' 7 page" "''Invalid content''"
          "[Attach 2, Ready 1 4, AfterRunAsync 1 4]" 0]
      n e p l m
    by simp
qed

text \<open>
  The sentence of the specification fails when a plugin callback rejects: \<^verbatim>\<open>onReady\<close> is
  left at the \<^verbatim>\<open>await\<close> before the ledger is read, the entry stays and nothing is written.
\<close>

theorem rejecting_plugin_keeps_error:
  "errors (onerror ''Invalid content'' 7 page) 7 = Some ''Invalid content''
   \<and> onReady rejecting_plugin 0 7 (onerror ''Invalid content'' 7 page)
      = (Throw ''boom'',
         (onerror ''Invalid content'' 7 page)
           \<lparr>alreadyRegistered := True,
            trace := [RegisterJsModule 0 ''_pyscript''
                        [''PyWorker'', ''fs'', ''interpreter'', ''js_import'', ''target''],
                      Invoke ''plugin'']\<rparr>)
   \<and> errors (snd (onReady rejecting_plugin 0 7 (onerror ''Invalid content'' 7 page))) 7
      = Some ''Invalid content''
   \<and> filter is_stderr (trace (snd (onReady rejecting_plugin 0 7 (onerror ''Invalid content'' 7 page)))) = []"
  by (simp add: ready_defs page_defs fun_eq_iff)
subsection \<open>Ready and done\<close>

lemma step_lifecycle:
  assumes "lifecycle env e0 (trace s)"
  shows "lifecycle env e0 (trace (step env a s))"
proof -
  obtain P T e where t: "trace (step env a s) = trace s @ P @ T"
    and q: "list_all is_quiet P" and b: "list_all (belongs_to e) T" and l: "lifecycle env e T"
    using step_events [of env a s] by blast
  have "lifecycle env e0 T"
  proof (cases "e0 = e")
    case True
    then show ?thesis using l by simp
  next
    case False
    then show ?thesis by (rule belongs_other(5) [OF b])
  qed
  then show ?thesis
    unfolding t
    by (intro lifecycle_append assms quiet_other(5) [OF q])
qed

lemma exec_lifecycle:
  assumes "lifecycle env e0 (trace s)"
  shows "lifecycle env e0 (trace (exec env acts s))"
  using assms
proof (induction acts arbitrary: s)
  case Nil
  then show ?case by simp
next
  case (Cons a acts)
  show ?case
    using Cons.IH [OF step_lifecycle [OF Cons.prems, of a]] by simp
qed

lemma lifecycle_start:
  assumes "runs e (trace s) = 0" and "done_ev env e \<notin> set (trace s)"
  shows "lifecycle env e (trace s)"
  using assms by (auto simp: lifecycle_def runs_0_iff)

lemma lifecycle_done:
  assumes "lifecycle env e tr"
  shows "done_ev env e \<in> set tr
     \<longleftrightarrow> ready_ev env e \<in> set tr \<and> (\<exists>x\<in>set tr. is_run_of e x \<and> completed env x)"
  using assms by (auto simp: lifecycle_def)

lemma onReady_deletes:
  "errors (snd (onReady env w e s)) e = None
     \<longleftrightarrow> errors s e = None \<or> chain_result (main env ''onReady'') = Normal"
  by (auto simp: onReady_eq ready_script_fields split: completion.splits option.splits)

text \<open>
  C3, as amended. For a unit of which nothing was run and no \<^verbatim>\<open>done\<close> dispatched, and
  whatever the page does (any sequence of attachments, ready checkpoints, errors,
  workers and hooks around runs): \<^verbatim>\<open>done\<close> is dispatched if and only if \<^verbatim>\<open>ready\<close> was
  dispatched and a run of the unit came to its end (\<^verbatim>\<open>run\<close> returned, or the promise of
  \<^verbatim>\<open>runAsync\<close> was fulfilled). For a unit that has not started and whose one ready
  checkpoint is the first of the actions: if an error is recorded for it when the
  checkpoint starts, neither \<^verbatim>\<open>ready\<close> nor \<^verbatim>\<open>done\<close> is ever dispatched (for a custom
  element too: its wrap stays pending, so that its attachment callback stays suspended);
  and \<^verbatim>\<open>done\<close> is dispatched if and only if \<^verbatim>\<open>ready\<close> was dispatched, no pending error
  was consumed at the ready checkpoint, and a run of the unit came to its end.
\<close>

theorem done_iff_ready_and_run_completed:
  "(runs e (trace s0) = 0 \<and> done_ev env e \<notin> set (trace s0) \<longrightarrow>
      (done_ev env e \<in> set (trace (exec env acts s0))
         \<longleftrightarrow> ready_ev env e \<in> set (trace (exec env acts s0))
             \<and> (\<exists>x\<in>set (trace (exec env acts s0)). is_run_of e x \<and> completed env x)))
   \<and> (never_started env e s \<and> list_all (\<lambda>a. \<not> is_ready_of e a) post \<longrightarrow>
        (errors s e \<noteq> None \<longrightarrow>
           ready_ev env e \<notin> set (trace (exec env (Ready w e # post) s))
           \<and> done_ev env e \<notin> set (trace (exec env (Ready w e # post) s)))
        \<and> (done_ev env e \<in> set (trace (exec env (Ready w e # post) s))
             \<longleftrightarrow> ready_ev env e \<in> set (trace (exec env (Ready w e # post) s))
                 \<and> \<not> consumed env w e s
                 \<and> (\<exists>x\<in>set (trace (exec env (Ready w e # post) s)).
                       is_run_of e x \<and> completed env x)))"
proof (intro conjI impI)
  assume "runs e (trace s0) = 0 \<and> done_ev env e \<notin> set (trace s0)"
  then have "lifecycle env e (trace s0)"
    by (intro lifecycle_start) simp_all
  then have "lifecycle env e (trace (exec env acts s0))"
    by (rule exec_lifecycle)
  then show "done_ev env e \<in> set (trace (exec env acts s0))
         \<longleftrightarrow> ready_ev env e \<in> set (trace (exec env acts s0))
             \<and> (\<exists>x\<in>set (trace (exec env acts s0)). is_run_of e x \<and> completed env x)"
    by (rule lifecycle_done)
next
  assume a: "never_started env e s \<and> list_all (\<lambda>a. \<not> is_ready_of e a) post"
  assume p: "errors s e \<noteq> None"
  then obtain message where m: "errors s e = Some message" by auto
  have "never_started env e (exec env (Ready w e # post) s)"
    using a by (intro preempted_never_started [OF _ m]) simp_all
  then show "ready_ev env e \<notin> set (trace (exec env (Ready w e # post) s))"
    and "done_ev env e \<notin> set (trace (exec env (Ready w e # post) s))"
    by (simp_all add: never_started_def)
next
  assume a: "never_started env e s \<and> list_all (\<lambda>a. \<not> is_ready_of e a) post"
  define tr where "tr = trace (exec env (Ready w e # post) s)"
  have "lifecycle env e (trace s)"
    using a by (intro lifecycle_start) (simp_all add: never_started_def)
  then have "lifecycle env e tr"
    unfolding tr_def by (rule exec_lifecycle)
  then have d: "done_ev env e \<in> set tr
         \<longleftrightarrow> ready_ev env e \<in> set tr \<and> (\<exists>x\<in>set tr. is_run_of e x \<and> completed env x)"
    by (rule lifecycle_done)
  have c: "consumed env w e s \<Longrightarrow> ready_ev env e \<notin> set tr"
  proof -
    assume "consumed env w e s"
    then obtain message where m: "errors s e = Some message"
      by (auto simp: consumed_def)
    have "never_started env e (exec env (Ready w e # post) s)"
      using a by (intro preempted_never_started [OF _ m]) simp_all
    then show "ready_ev env e \<notin> set tr"
      by (simp add: never_started_def tr_def)
  qed
  show "done_ev env e \<in> set tr
         \<longleftrightarrow> ready_ev env e \<in> set tr \<and> \<not> consumed env w e s
             \<and> (\<exists>x\<in>set tr. is_run_of e x \<and> completed env x)"
    using d c by blast
qed

lemma page_ready_7:
  "trace (snd (onReady page_env 0 7 page)) =
     [RegisterJsModule 0 ''_pyscript'' [''PyWorker'', ''fs'', ''interpreter'', ''js_import'', ''target''],
      Dispatch 7 ''py'' ''ready'', Fetch ''missing.py'', Stderr 0 ''404'',
      RunAsync 7 0 ''print(1)'', Debug, Dispatch 7 ''py'' ''done'']"
  by (simp add: ready_defs page_defs)

theorem done_iff_ready_and_run_completed_witness:
  "runs 7 (trace page) = 0 \<and> done_ev page_env 7 \<notin> set (trace page)
   \<and> never_started page_env 7 page
   \<and> done_ev page_env 7 \<in> set (trace (exec page_env [Ready 0 7] page))
   \<and> ready_ev page_env 7 \<in> set (trace (exec page_env [Ready 0 7] page))
   \<and> \<not> consumed page_env 0 7 page
   \<and> (\<exists>x\<in>set (trace (exec page_env [Ready 0 7] page)). is_run_of 7 x \<and> completed page_env x)
   \<and> never_started page_env 7 (onerror ''Invalid content'' 7 page)
   \<and> errors (onerror ''Invalid content'' 7 page) 7 = Some ''Invalid content''
   \<and> consumed page_env 0 7 (onerror ''Invalid content'' 7 page)
   \<and> ready_ev page_env 7
        \<notin> set (trace (exec page_env [Ready 0 7, Attach 2] (onerror ''Invalid content'' 7 page)))
   \<and> done_ev page_env 7
        \<notin> set (trace (exec page_env [Ready 0 7, Attach 2] (onerror ''Invalid content'' 7 page)))"
proof -
  have n: "never_started page_env 7 page"
    "never_started page_env 7 (onerror ''Invalid content'' 7 page)"
    by (simp_all add: never_started_def onerror_def runs_def page_defs)
  have r: "runs 7 (trace page) = 0" "done_ev page_env 7 \<notin> set (trace page)"
    by (simp_all add: runs_def page_def)
  have f: "flavor page_env = ''py''"
    by (simp add: page_env_def)
  have d: "done_ev page_env 7 \<in> set (trace (exec page_env [Ready 0 7] page))"
    by (simp add: page_ready_7 done_ev_def f)
  have e: "errors (onerror ''Invalid content'' 7 page) 7 = Some ''Invalid content''"
    "errors page 7 = None"
    by (simp_all add: onerror_def page_def)
  have c: "consumed page_env 0 7 (onerror ''Invalid content'' 7 page)"
    by (simp add: consumed_def onReady_deletes e) (simp add: page_env_def)
  have k: "\<not> consumed page_env 0 7 page"
    by (simp add: consumed_def e)
  show ?thesis
    using done_iff_ready_and_run_completed [of 7 page page_env "[Ready 0 7]" page "[]" 0]
      done_iff_ready_and_run_completed
        [of 7 page page_env "[]" "onerror ''Invalid content'' 7 page" "[Attach 2]" 0]
      n r d e c k
    by simp
qed

text \<open>
  The sentence of the specification fails when the run does not come to its end, be it
  that the promise of \<^verbatim>\<open>runAsync\<close> is rejected or that it never settles: \<^verbatim>\<open>ready\<close> was
  dispatched, no error was pending or consumed, and \<^verbatim>\<open>done\<close> is not dispatched, since
  \<^verbatim>\<open>result.then\<close> only has a callback for fulfilment.
\<close>

theorem ready_without_done:
  "trace (snd (onReady failing_runs 0 7 page)) =
     [RegisterJsModule 0 ''_pyscript'' [''PyWorker'', ''fs'', ''interpreter'', ''js_import'', ''target''],
      Dispatch 7 ''py'' ''ready'', Fetch ''missing.py'', Stderr 0 ''404'',
      RunAsync 7 0 ''print(1)'', Debug]
   \<and> errors page 7 = None
   \<and> \<not> consumed failing_runs 0 7 page
   \<and> errors (snd (onReady failing_runs 0 7 page)) = errors page
   \<and> Dispatch 7 ''py'' ''ready'' \<in> set (trace (snd (onReady failing_runs 0 7 page)))
   \<and> Dispatch 7 ''py'' ''done'' \<notin> set (trace (snd (onReady failing_runs 0 7 page)))
   \<and> Dispatch 7 ''py'' ''ready'' \<in> set (trace (snd (onReady endless_runs 0 7 page)))
   \<and> Dispatch 7 ''py'' ''done'' \<notin> set (trace (snd (onReady endless_runs 0 7 page)))
   \<and> errors (snd (onReady endless_runs 0 7 page)) = errors page"
  by (simp add: consumed_def ready_defs page_defs)
subsection \<open>The order of the checkpoints\<close>

lemma page_ready_4:
  "trace (snd (onReady page_env 0 4 page)) =
     [RegisterJsModule 0 ''_pyscript'' [''PyWorker'', ''fs'', ''interpreter'', ''js_import'', ''target''],
      Dispatch 4 ''py'' ''ready'', Fetch ''main.py'', RunAsync 4 0 ''print(2)'', Debug,
      Dispatch 4 ''py'' ''done'']"
  by (simp add: ready_defs page_defs)

lemma page_element_9:
  "trace (exec page_env [Attach 9, Ready 0 9] larger_page) =
     [RegisterJsModule 0 ''_pyscript'' [''PyWorker'', ''fs'', ''interpreter'', ''js_import'', ''target''],
      Debug, Fetch ''main.py'', Dispatch 9 ''py'' ''ready'', RunAsync 9 0 ''print(2)'',
      Dispatch 9 ''py'' ''done'']"
  by (simp add: ready_defs page_defs connectedCallback_def)

text \<open>
  C9. The specification asks for the source of a unit to be resolved before \<^verbatim>\<open>ready\<close> is
  dispatched on it. The custom element does so: \<^verbatim>\<open>connectedCallback\<close> fetches the source
  (line 348) and then dispatches \<^verbatim>\<open>ready\<close> (line 355). The script does not: \<^verbatim>\<open>onReady\<close>
  dispatches \<^verbatim>\<open>ready\<close> (line 236) and fetches the source afterwards, when it evaluates
  the argument of \<^verbatim>\<open>run\<close> (line 241). On the small page, for the script and the custom
  element that declare the same \<^verbatim>\<open>src\<close>: the script dispatches \<^verbatim>\<open>ready\<close> before the
  fetch, the custom element after it.
\<close>

theorem script_ready_before_source:
  "attrs (nodes page 4) ''src'' = Some ''main.py'' \<and> isScript (nodes page 4)
   \<and> trace (snd (onReady page_env 0 4 page)) =
     [RegisterJsModule 0 ''_pyscript'' [''PyWorker'', ''fs'', ''interpreter'', ''js_import'', ''target''],
      Dispatch 4 ''py'' ''ready'', Fetch ''main.py'', RunAsync 4 0 ''print(2)'', Debug,
      Dispatch 4 ''py'' ''done'']
   \<and> before (Dispatch 4 ''py'' ''ready'') (Fetch ''main.py'') (trace (snd (onReady page_env 0 4 page)))
   \<and> \<not> before (Fetch ''main.py'') (Dispatch 4 ''py'' ''ready'') (trace (snd (onReady page_env 0 4 page)))
   \<and> attrs (nodes larger_page 9) ''src'' = Some ''main.py'' \<and> \<not> isScript (nodes larger_page 9)
   \<and> trace (exec page_env [Attach 9, Ready 0 9] larger_page) =
     [RegisterJsModule 0 ''_pyscript'' [''PyWorker'', ''fs'', ''interpreter'', ''js_import'', ''target''],
      Debug, Fetch ''main.py'', Dispatch 9 ''py'' ''ready'', RunAsync 9 0 ''print(2)'',
      Dispatch 9 ''py'' ''done'']
   \<and> before (Fetch ''main.py'') (Dispatch 9 ''py'' ''ready'')
        (trace (exec page_env [Attach 9, Ready 0 9] larger_page))"
  unfolding page_ready_4 page_element_9
  by (simp add: before_def isScript_def page_defs)

subsection \<open>The display element of a script\<close>


lemma digit_inj: "a < 10 \<Longrightarrow> b < 10 \<Longrightarrow> digit a = digit b \<Longrightarrow> a = b"
proof -
  assume a: "a < 10" and b: "b < 10" and d: "digit a = digit b"
  have "a \<in> {0, 1, 2, 3, 4, 5, 6, 7, 8, 9}" using a by auto
  moreover have "b \<in> {0, 1, 2, 3, 4, 5, 6, 7, 8, 9}" using b by auto
  ultimately show ?thesis using d by (auto simp: digit_def)
qed

lemma decimal_nonempty: "decimal n \<noteq> []"
  by (subst decimal.simps) simp

lemma decimal_inj: "decimal m = decimal n \<Longrightarrow> m = n"
proof (induction m arbitrary: n rule: decimal.induct)
  case (1 m)
  show ?case
  proof (cases "m < 10")
    case True
    then have m: "decimal m = [digit m]" by (subst decimal.simps) simp
    show ?thesis
    proof (cases "n < 10")
      case True
      then have "decimal n = [digit n]" by (subst decimal.simps) simp
      with m "1.prems" have "digit m = digit n" by simp
      with \<open>m < 10\<close> \<open>n < 10\<close> show ?thesis by (rule digit_inj)
    next
      case False
      then have "decimal n = decimal (n div 10) @ [digit (n mod 10)]"
        by (subst decimal.simps) simp
      with m "1.prems" have "decimal (n div 10) = []" by simp
      then show ?thesis by (simp add: decimal_nonempty)
    qed
  next
    case False
    then have m: "decimal m = decimal (m div 10) @ [digit (m mod 10)]"
      by (subst decimal.simps) simp
    show ?thesis
    proof (cases "n < 10")
      case True
      then have "decimal n = [digit n]" by (subst decimal.simps) simp
      with m "1.prems" have "decimal (m div 10) = []" by simp
      then show ?thesis by (simp add: decimal_nonempty)
    next
      case nf: False
      then have "decimal n = decimal (n div 10) @ [digit (n mod 10)]"
        by (subst decimal.simps) simp
      with m "1.prems" have q: "decimal (m div 10) = decimal (n div 10)"
        and r: "digit (m mod 10) = digit (n mod 10)" by simp_all
      from q have "m div 10 = n div 10" using "1.IH" False by blast
      moreover have "m mod 10 = n mod 10"
        using r by (intro digit_inj) simp_all
      ultimately show ?thesis by (metis div_mult_mod_eq)
    qed
  qed
qed

lemma getID_fresh: "k < id_n s \<Longrightarrow> flavor env @ ''-'' @ decimal k \<noteq> fst (getID env s)"
  using decimal_inj [of k "id_n s"] by (auto simp: getID_def)










subsection \<open>The order of the plugin callbacks\<close>



lemma invoked_append [simp]: "invoked (xs @ ys) = invoked xs @ invoked ys"
  by (induction xs) (auto split: event.splits)












lemma await_callbacks_new [simp]:
  "new_events s (snd (await_callbacks cs a b s)) = chain_events cs"
  by (rule new_events_append) simp

lemma call_callbacks_new [simp]:
  "new_events s (snd (call_callbacks cs a b s)) = call_events cs"
  by (rule new_events_append) simp


lemma is_async_hook_names [simp]:
  "\<not> is_async_hook ''onReady''" "\<not> is_async_hook ''onWorker''"
  "\<not> is_async_hook ''onBeforeRun''" "is_async_hook ''onBeforeRunAsync''"
  "\<not> is_async_hook ''onAfterRun''" "is_async_hook ''onAfterRunAsync''"
  by (simp_all add: is_async_hook_def)



end
